theory Spec2Isabelle
  imports Complex_Main "HOL-Library.AList"
begin

section \<open>The query intent (queryIntentSchema.ts)\<close>

text \<open>
  The intent is the object the zod schema \<^verbatim>\<open>QueryIntentSchema\<close> describes. The four metrics
  and the seven dimensions are closed enumerations; \<open>UnknownMetric\<close> stands for any other
  value of the field, which the \<^verbatim>\<open>default\<close> branch of \<^verbatim>\<open>buildQueryPlan\<close> rejects.
  An optional field is an \<open>option\<close>: \<open>None\<close> is \<^verbatim>\<open>undefined\<close>.
\<close>

datatype metric = Revenue | Orders | ItemsSold | PerItemRevenue | UnknownMetric string

datatype dimension = Location | Product | Category | Date | Hour | FulfillmentMethod | Provider

datatype sort_by = SortValue | SortCount | SortName | SortDate

datatype sort_order = Asc | Desc

record date_range =
  range_start :: string
  range_end :: string

record filters =
  date_range :: "date_range option"
  locations :: "string list option"
  fulfillmentMethods :: "string list option"
  categories :: "string list option"
  products :: "string list option"
  providers :: "string list option"

record query_intent =
  metric :: metric
  groupBy :: "dimension list"
  filters :: filters
  limit :: "int option"
  sortBy :: "sort_by option"
  sortOrder :: "sort_order option"

section \<open>The normalized schema (db/schema.ts) and the query plan\<close>

datatype table = TOrders | TOrderItems | TCanonicalItems | TCanonicalCategories

text \<open>A column is a table with the column's name in the database.\<close>

datatype column = Col table string

definition orders_orderId :: column where "orders_orderId = Col TOrders ''order_id''"
definition orders_storeId :: column where "orders_storeId = Col TOrders ''store_id''"
definition orders_fulfillmentMethod :: column where
  "orders_fulfillmentMethod = Col TOrders ''fulfillment_method''"
definition orders_createdAt :: column where "orders_createdAt = Col TOrders ''created_at''"
definition orders_total :: column where "orders_total = Col TOrders ''total''"
definition orders_provider :: column where "orders_provider = Col TOrders ''provider''"
definition orderItems_orderId :: column where "orderItems_orderId = Col TOrderItems ''order_id''"
definition orderItems_quantity :: column where "orderItems_quantity = Col TOrderItems ''quantity''"
definition orderItems_unitPrice :: column where
  "orderItems_unitPrice = Col TOrderItems ''unit_price''"
definition orderItems_canonicalItemId :: column where
  "orderItems_canonicalItemId = Col TOrderItems ''canonical_item_id''"
definition orderItems_canonicalCategoryId :: column where
  "orderItems_canonicalCategoryId = Col TOrderItems ''canonical_category_id''"
definition canonicalItems_id :: column where "canonicalItems_id = Col TCanonicalItems ''id''"
definition canonicalItems_canonicalName :: column where
  "canonicalItems_canonicalName = Col TCanonicalItems ''canonical_name''"
definition canonicalCategories_id :: column where
  "canonicalCategories_id = Col TCanonicalCategories ''id''"
definition canonicalCategories_canonicalName :: column where
  "canonicalCategories_canonicalName = Col TCanonicalCategories ''canonical_name''"

text \<open>
  An expression of the plan is a column, or a \<^verbatim>\<open>sql\<close> template: the literal text of the
  template with the columns interpolated into it, kept as written in the source.
\<close>

datatype sql_chunk = Txt string | Ref column

datatype sql_expr = ColumnE column | SqlE "sql_chunk list"

definition sum_total :: sql_expr where
  "sum_total = SqlE [Txt ''sum('', Ref orders_total, Txt '')'']"
definition count_orderId :: sql_expr where
  "count_orderId = SqlE [Txt ''count('', Ref orders_orderId, Txt '')'']"
definition sum_quantity :: sql_expr where
  "sum_quantity = SqlE [Txt ''sum('', Ref orderItems_quantity, Txt '')'']"
definition sum_unitPrice_quantity :: sql_expr where
  "sum_unitPrice_quantity =
     SqlE [Txt ([CHR 0x0A] @ ''        sum(''), Ref orderItems_unitPrice, Txt '' * '',
           Ref orderItems_quantity, Txt ('')'' @ [CHR 0x0A] @ ''      '')]"

text \<open>\<^verbatim>\<open>date(created_at)\<close>: the order timestamp truncated to its day.\<close>

definition date_createdAt :: sql_expr where
  "date_createdAt = SqlE [Txt ''date('', Ref orders_createdAt, Txt '')'']"

text \<open>\<^verbatim>\<open>date_trunc('hour', created_at)\<close>: the order timestamp truncated to its hour.\<close>

definition date_trunc_hour_createdAt :: sql_expr where
  "date_trunc_hour_createdAt =
     SqlE [Txt (''date_trunc('' @ [CHR 0x27] @ ''hour'' @ [CHR 0x27] @ '', ''),
           Ref orders_createdAt, Txt '')'']"

definition sql_value :: sql_expr where "sql_value = SqlE [Txt ''value'']"
definition sql_count_star :: sql_expr where "sql_count_star = SqlE [Txt ''COUNT(*)'']"

text \<open>
  A JavaScript \<^verbatim>\<open>Date\<close> is its time value, the milliseconds since the epoch (UTC);
  \<open>None\<close> is the invalid date, whose time value is NaN.
\<close>

type_synonym js_date = "int option"

datatype condition =
    Eq column column
  | Gte column js_date
  | Lte column js_date
  | InArray column "string list"
  | And "condition list"

datatype join_kind = InnerJoin | LeftJoin

datatype join = Join join_kind table condition

datatype order_term = AscBy sql_expr | DescBy sql_expr

record query_plan =
  selectShape :: "(string \<times> sql_expr) list"
  fromTable :: table
  joins :: "join list"
  whereCond :: "condition option"
  groupByColumns :: "sql_expr list"
  orderByTerms :: "order_term list"
  limitRows :: "int option"

datatype error = UnknownMetricError string | StoreError string

section \<open>Dates (the Date built-in, as buildQueryPlan uses it)\<close>

text \<open>
  \<^verbatim>\<open>new Date("YYYY-MM-DD")\<close> is midnight UTC of that day. \<open>days_from_civil\<close> is the day
  number of a date of the proleptic Gregorian calendar, day 0 being 1970-01-01; the day
  of the month is added to the first day of the month, as MakeDay does.
\<close>

definition msPerDay :: int where "msPerDay = 86400000"

definition days_from_civil :: "int \<Rightarrow> int \<Rightarrow> int \<Rightarrow> int" where
  "days_from_civil y m d =
     (let y' = (if m \<le> 2 then y - 1 else y);
          era = y' div 400;
          yoe = y' - era * 400;
          doy = (153 * (if m > 2 then m - 3 else m + 9) + 2) div 5 + d - 1;
          doe = yoe * 365 + yoe div 4 - yoe div 100 + doy
      in era * 146097 + doe - 719468)"

definition digit_val :: "char \<Rightarrow> int option" where
  "digit_val c = (let n = (of_char c :: nat) in
     if 48 \<le> n \<and> n \<le> 57 then Some (int n - 48) else None)"

fun digits_val :: "string \<Rightarrow> int option" where
  "digits_val [] = None"
| "digits_val cs = fold (\<lambda>c acc. case (acc, digit_val c) of
                                   (Some a, Some v) \<Rightarrow> Some (10 * a + v)
                                 | _ \<Rightarrow> None) cs (Some 0)"

text \<open>
  The date strings of an intent have the form the schema's regular expression checks,
  four digits, a month 01..12 and a day 01..31; any other string is not a date.
\<close>

definition new_Date :: "string \<Rightarrow> js_date" where
  "new_Date s =
     (if length s = 10 \<and> s ! 4 = CHR ''-'' \<and> s ! 7 = CHR ''-'' then
        (case (digits_val (take 4 s), digits_val (take 2 (drop 5 s)), digits_val (drop 8 s)) of
           (Some y, Some m, Some d) \<Rightarrow>
             if 1 \<le> m \<and> m \<le> 12 \<and> 1 \<le> d \<and> d \<le> 31
             then Some (days_from_civil y m d * msPerDay) else None
         | _ \<Rightarrow> None)
      else None)"

text \<open>
  \<^verbatim>\<open>d.setUTCHours(23, 59, 59, 999)\<close> keeps the UTC day of \<open>d\<close> and sets the time within
  the day; an invalid date stays invalid.
\<close>

definition setUTCHours :: "int \<Rightarrow> int \<Rightarrow> int \<Rightarrow> int \<Rightarrow> js_date \<Rightarrow> js_date" where
  "setUTCHours h mi s ms d =
     map_option (\<lambda>t. (t div msPerDay) * msPerDay + (((h * 60 + mi) * 60 + s) * 1000 + ms)) d"

section \<open>buildQueryPlan (queryBuilder.ts)\<close>

text \<open>The metric picks the aggregate and the base relation; an unknown metric throws.\<close>

definition metricValue :: "metric \<Rightarrow> error + (sql_expr \<times> bool)" where
  "metricValue m =
     (case m of
        Revenue \<Rightarrow> Inr (sum_total, True)
      | Orders \<Rightarrow> Inr (count_orderId, True)
      | ItemsSold \<Rightarrow> Inr (sum_quantity, False)
      | PerItemRevenue \<Rightarrow> Inr (sum_unitPrice_quantity, False)
      | UnknownMetric s \<Rightarrow> Inl (UnknownMetricError s))"

text \<open>
  Assigning a property of the select shape: a new key goes last, an existing key keeps
  its place and takes the new value (the property order of a JavaScript object).
\<close>

definition setKey :: "string \<Rightarrow> sql_expr \<Rightarrow> (string \<times> sql_expr) list \<Rightarrow> (string \<times> sql_expr) list" where
  "setKey k v shape = AList.update k v shape"

definition setIf :: "bool \<Rightarrow> string \<Rightarrow> sql_expr \<Rightarrow> (string \<times> sql_expr) list \<Rightarrow> (string \<times> sql_expr) list" where
  "setIf b k v shape = (if b then setKey k v shape else shape)"

definition buildSelectShape :: "sql_expr \<Rightarrow> dimension list \<Rightarrow> (string \<times> sql_expr) list" where
  "buildSelectShape valueExpr gb =
     (setIf (Provider \<in> set gb) ''provider'' (ColumnE orders_provider)
     (setIf (FulfillmentMethod \<in> set gb) ''fulfillment_method'' (ColumnE orders_fulfillmentMethod)
     (setIf (Hour \<in> set gb) ''created_at'' date_trunc_hour_createdAt
     (setIf (Date \<in> set gb) ''created_at'' date_createdAt
     (setIf (Category \<in> set gb) ''category'' (ColumnE canonicalCategories_canonicalName)
     (setIf (Product \<in> set gb) ''product'' (ColumnE canonicalItems_canonicalName)
     (setIf (Location \<in> set gb) ''store_id'' (ColumnE orders_storeId)
       [(''value'', valueExpr)])))))))"

text \<open>
  The joins. A filter field counts as soon as it is present: an array, even an empty
  one, is truthy.
\<close>

definition needOrdersJoin :: "filters \<Rightarrow> dimension list \<Rightarrow> bool" where
  "needOrdersJoin f gb \<longleftrightarrow>
     locations f \<noteq> None \<or> fulfillmentMethods f \<noteq> None \<or> date_range f \<noteq> None \<or>
     providers f \<noteq> None \<or> Location \<in> set gb \<or> FulfillmentMethod \<in> set gb \<or>
     Date \<in> set gb \<or> Hour \<in> set gb \<or> Provider \<in> set gb"

definition needOrderItemsJoin :: "filters \<Rightarrow> dimension list \<Rightarrow> bool" where
  "needOrderItemsJoin f gb \<longleftrightarrow>
     products f \<noteq> None \<or> categories f \<noteq> None \<or> Product \<in> set gb \<or> Category \<in> set gb"

definition buildJoins :: "metric \<Rightarrow> filters \<Rightarrow> dimension list \<Rightarrow> join list" where
  "buildJoins m f gb =
     (if m = ItemsSold \<or> m = PerItemRevenue then
        (if needOrdersJoin f gb
         then [Join InnerJoin TOrders (Eq orderItems_orderId orders_orderId)] else [])
      else if m = Revenue \<or> m = Orders then
        (if needOrderItemsJoin f gb
         then [Join LeftJoin TOrderItems (Eq orderItems_orderId orders_orderId)] else [])
      else [])
     @ (if products f \<noteq> None \<or> Product \<in> set gb
        then [Join LeftJoin TCanonicalItems (Eq orderItems_canonicalItemId canonicalItems_id)]
        else [])
     @ (if categories f \<noteq> None \<or> Category \<in> set gb
        then [Join LeftJoin TCanonicalCategories
                (Eq orderItems_canonicalCategoryId canonicalCategories_id)]
        else [])"

text \<open>The conditions. \<^verbatim>\<open>filters.locations?.length\<close> holds of a present, non-empty array.\<close>

definition nonEmpty :: "string list option \<Rightarrow> bool" where
  "nonEmpty xs \<longleftrightarrow> (case xs of None \<Rightarrow> False | Some ys \<Rightarrow> ys \<noteq> [])"

definition dateRangeCondition :: "date_range \<Rightarrow> condition" where
  "dateRangeCondition r =
     (let endOfDay = setUTCHours 23 59 59 999 (new_Date (range_end r))
      in And [Gte orders_createdAt (new_Date (range_start r)), Lte orders_createdAt endOfDay])"

definition inArrayIf :: "column \<Rightarrow> string list option \<Rightarrow> condition list" where
  "inArrayIf c xs = (if nonEmpty xs then [InArray c (the xs)] else [])"

definition whereConditions :: "filters \<Rightarrow> condition list" where
  "whereConditions f =
     (case date_range f of None \<Rightarrow> [] | Some r \<Rightarrow> [dateRangeCondition r])
     @ inArrayIf orders_storeId (locations f)
     @ inArrayIf orders_fulfillmentMethod (fulfillmentMethods f)
     @ inArrayIf orders_provider (providers f)
     @ inArrayIf canonicalItems_canonicalName (products f)
     @ inArrayIf canonicalCategories_canonicalName (categories f)"

text \<open>
  The loop over \<^verbatim>\<open>groupBy\<close>: the state is \<^verbatim>\<open>groupByColumns\<close> with \<^verbatim>\<open>groupByTimeExpr\<close>
  (\<open>None\<close> while it is undefined).
\<close>

fun groupByStep :: "dimension \<Rightarrow> sql_expr list \<times> sql_expr option \<Rightarrow> sql_expr list \<times> sql_expr option" where
  "groupByStep Location (cols, te) = (cols @ [ColumnE orders_storeId], te)"
| "groupByStep Product (cols, te) = (cols @ [ColumnE canonicalItems_canonicalName], te)"
| "groupByStep Category (cols, te) = (cols @ [ColumnE canonicalCategories_canonicalName], te)"
| "groupByStep Date (cols, te) = (cols @ [date_createdAt], Some date_createdAt)"
| "groupByStep Hour (cols, te) = (cols @ [date_createdAt], Some date_trunc_hour_createdAt)"
| "groupByStep FulfillmentMethod (cols, te) = (cols @ [ColumnE orders_fulfillmentMethod], te)"
| "groupByStep Provider (cols, te) = (cols @ [ColumnE orders_provider], te)"

fun groupByLoop :: "dimension list \<Rightarrow> sql_expr list \<times> sql_expr option \<Rightarrow> sql_expr list \<times> sql_expr option" where
  "groupByLoop [] st = st"
| "groupByLoop (dimen # rest) st = groupByLoop rest (groupByStep dimen st)"

text \<open>The sort column; \<open>None\<close> is \<^verbatim>\<open>undefined\<close>, for which no ORDER BY is added.\<close>

fun sortColumn :: "sort_by \<Rightarrow> sql_expr option \<Rightarrow> sql_expr option" where
  "sortColumn SortValue te = Some sql_value"
| "sortColumn SortCount te = Some sql_count_star"
| "sortColumn SortName te = Some (ColumnE canonicalItems_canonicalName)"
| "sortColumn SortDate te = te"

definition buildOrderBy :: "sort_by option \<Rightarrow> sort_order option \<Rightarrow> sql_expr option \<Rightarrow> order_term list" where
  "buildOrderBy sb so te =
     (case sb of
        None \<Rightarrow> []
      | Some s \<Rightarrow>
         (case sortColumn s te of
            None \<Rightarrow> []
          | Some c \<Rightarrow> if so = Some Desc then [DescBy c] else [AscBy c]))"

definition buildQueryPlan :: "query_intent \<Rightarrow> error + query_plan" where
  "buildQueryPlan intent =
     (case metricValue (metric intent) of
        Inl e \<Rightarrow> Inl e
      | Inr (valueExpr, fromOrdersTable) \<Rightarrow>
          (let gb = groupBy intent;
               f = filters intent;
               conds = whereConditions f;
               (cols, timeExpr) = groupByLoop gb ([], None)
           in Inr \<lparr> selectShape = buildSelectShape valueExpr gb,
                    fromTable = (if fromOrdersTable then TOrders else TOrderItems),
                    joins = buildJoins (metric intent) f gb,
                    whereCond = (if conds \<noteq> [] then Some (And conds) else None),
                    groupByColumns = cols,
                    orderByTerms = buildOrderBy (sortBy intent) (sortOrder intent) timeExpr,
                    limitRows = (case limit intent of
                                   None \<Rightarrow> None
                                 | Some n \<Rightarrow> if n \<noteq> 0 then Some n else None) \<rparr>))"

text \<open>An intent with no filter, no sort and no limit.\<close>

definition noFilters :: filters where
  "noFilters = \<lparr> date_range = None, locations = None, fulfillmentMethods = None,
                 categories = None, products = None, providers = None \<rparr>"

definition plainIntent :: "metric \<Rightarrow> dimension list \<Rightarrow> query_intent" where
  "plainIntent m gb = \<lparr> metric = m, groupBy = gb, filters = noFilters, limit = None,
                        sortBy = None, sortOrder = None \<rparr>"

section \<open>transformQueryResult and executeQueryIntent (queryBuilder.ts)\<close>

text \<open>
  A row of the result is an object from keys to strings; \<open>None\<close> is a key that is absent
  (or \<^verbatim>\<open>null\<close>). A value is truthy when it is present and not the empty string.
  \<^verbatim>\<open>toLocaleString\<close> and \<^verbatim>\<open>Number\<close> belong to the runtime and are parameters.
\<close>

type_synonym row = "string \<rightharpoonup> string"












text \<open>The tables a plan joins, in order.\<close>

fun joinTable :: "join \<Rightarrow> table" where
  "joinTable (Join k t c) = t"

definition joinedTables :: "query_plan \<Rightarrow> table list" where
  "joinedTables p = map joinTable (joins p)"

definition orderLevelFilter :: "filters \<Rightarrow> bool" where
  "orderLevelFilter f \<longleftrightarrow>
     locations f \<noteq> None \<or> fulfillmentMethods f \<noteq> None \<or> date_range f \<noteq> None \<or>
     providers f \<noteq> None"

text \<open>
  The meaning of a condition on a row of the joined relation. A value of the column
  \<^verbatim>\<open>created_at\<close>, a \<^verbatim>\<open>timestamp\<close> of the database, is a number of microseconds since the epoch;
  a \<open>Date\<close> of the condition is a number of milliseconds. A comparison with a null or
  with an invalid date does not hold.
\<close>

datatype cell = Null | Timestamp int | Text string

definition usPerMs :: int where "usPerMs = 1000"

fun condHolds :: "(column \<Rightarrow> cell) \<Rightarrow> condition \<Rightarrow> bool" where
  "condHolds r (Eq a b) = (r a \<noteq> Null \<and> r a = r b)"
| "condHolds r (Gte c d) =
     (case (r c, d) of (Timestamp t, Some b) \<Rightarrow> b * usPerMs \<le> t | _ \<Rightarrow> False)"
| "condHolds r (Lte c d) =
     (case (r c, d) of (Timestamp t, Some b) \<Rightarrow> t \<le> b * usPerMs | _ \<Rightarrow> False)"
| "condHolds r (InArray c xs) = (case r c of Text s \<Rightarrow> s \<in> set xs | _ \<Rightarrow> False)"
| "condHolds r (And cs) = (\<forall>c \<in> set cs. condHolds r c)"

text \<open>An order created at the instant \<open>t\<close>, in microseconds since the epoch.\<close>

definition orderAt :: "int \<Rightarrow> column \<Rightarrow> cell" where
  "orderAt t c = (if c = orders_createdAt then Timestamp t else Null)"


text \<open>Revenue by day from the first to the tenth of March 2024.\<close>

definition marchIntent :: query_intent where
  "marchIntent = (plainIntent Revenue [Date])
     \<lparr> filters := noFilters \<lparr> date_range :=
          Some \<lparr> range_start = ''2024-03-01'', range_end = ''2024-03-10'' \<rparr> \<rparr> \<rparr>"

section \<open>Strings (lib/itemNormalizer.js)\<close>

text \<open>
  A JavaScript string is a sequence of UTF-16 code units, here natural numbers. \<open>js\<close>
  writes the string of ASCII characters.
\<close>

type_synonym jsstring = "nat list"

definition js :: "string \<Rightarrow> jsstring" where
  "js s = map of_char s"

definition isDigit :: "nat \<Rightarrow> bool" where
  "isDigit c \<longleftrightarrow> 48 \<le> c \<and> c \<le> 57"

definition isLower :: "nat \<Rightarrow> bool" where
  "isLower c \<longleftrightarrow> 97 \<le> c \<and> c \<le> 122"

definition isUpper :: "nat \<Rightarrow> bool" where
  "isUpper c \<longleftrightarrow> 65 \<le> c \<and> c \<le> 90"

text \<open>The class \<^verbatim>\<open>\w\<close>, which decides the word boundaries \<^verbatim>\<open>\b\<close>.\<close>

definition isWordChar :: "nat \<Rightarrow> bool" where
  "isWordChar c \<longleftrightarrow> isDigit c \<or> isLower c \<or> isUpper c \<or> c = 95"

text \<open>The class \<^verbatim>\<open>\s\<close>: the white space and line terminators of ECMAScript.\<close>

definition isSpace :: "nat \<Rightarrow> bool" where
  "isSpace c \<longleftrightarrow>
     (9 \<le> c \<and> c \<le> 13) \<or> c = 32 \<or> c = 160 \<or> c = 5760 \<or> (8192 \<le> c \<and> c \<le> 8202) \<or>
     c = 8232 \<or> c = 8233 \<or> c = 8239 \<or> c = 8287 \<or> c = 12288 \<or> c = 65279"

text \<open>
  The case mappings and the Unicode normalization form of the runtime are parameters:
  they rest on the Unicode tables.
\<close>

record runtime =
  toLowerCase :: "jsstring \<Rightarrow> jsstring"
  toUpperCase :: "jsstring \<Rightarrow> jsstring"
  normalizeNFKD :: "jsstring \<Rightarrow> jsstring"

text \<open>
  \<^verbatim>\<open>replace(/[\u{1F300}-\u{1FAFF}]/gu, '')\<close>. With the flag \<^verbatim>\<open>u\<close> a high surrogate followed
  by a low surrogate is one code point; a code unit on its own is a code point below
  U+10000, outside the range.
\<close>

definition isHighSurrogate :: "nat \<Rightarrow> bool" where
  "isHighSurrogate c \<longleftrightarrow> 55296 \<le> c \<and> c \<le> 56319"

definition isLowSurrogate :: "nat \<Rightarrow> bool" where
  "isLowSurrogate c \<longleftrightarrow> 56320 \<le> c \<and> c \<le> 57343"

definition codePoint :: "nat \<Rightarrow> nat \<Rightarrow> nat" where
  "codePoint h l = 65536 + (h - 55296) * 1024 + (l - 56320)"

definition isEmoji :: "nat \<Rightarrow> bool" where
  "isEmoji cp \<longleftrightarrow> 127744 \<le> cp \<and> cp \<le> 129791"

fun stripEmoji :: "jsstring \<Rightarrow> jsstring" where
  "stripEmoji (h # l # cs) =
     (if isHighSurrogate h \<and> isLowSurrogate l
      then (if isEmoji (codePoint h l) then stripEmoji cs else h # l # stripEmoji cs)
      else h # stripEmoji (l # cs))"
| "stripEmoji [c] = [c]"
| "stripEmoji [] = []"

text \<open>\<^verbatim>\<open>replace(/[^a-z0-9\s]/g, '')\<close>\<close>

definition stripSpecial :: "jsstring \<Rightarrow> jsstring" where
  "stripSpecial s = filter (\<lambda>c. isLower c \<or> isDigit c \<or> isSpace c) s"

text \<open>
  \<^verbatim>\<open>replace(/\s*pcs?\b/g, '')\<close>. \<open>matchPcs s\<close> is the length of the match that starts at
  the front of \<open>s\<close>, if there is one: the white space, then \<^verbatim>\<open>pc\<close>, then \<^verbatim>\<open>s\<close> if a word
  boundary follows it, and a word boundary. The scan drops each match and goes on behind
  it; where no match starts it keeps the character.
\<close>

definition boundaryBefore :: "jsstring \<Rightarrow> bool" where
  "boundaryBefore s \<longleftrightarrow> (case s of [] \<Rightarrow> True | c # cs \<Rightarrow> \<not> isWordChar c)"

definition matchPcs :: "jsstring \<Rightarrow> nat option" where
  "matchPcs s =
     (let n = length (takeWhile isSpace s) in
      case dropWhile isSpace s of
        p # c # rest \<Rightarrow>
          if p = 112 \<and> c = 99 then
            (case rest of
               [] \<Rightarrow> Some (n + 2)
             | x # rest' \<Rightarrow>
                 if x = 115 \<and> boundaryBefore rest' then Some (n + 3)
                 else if boundaryBefore rest then Some (n + 2) else None)
          else None
      | _ \<Rightarrow> None)"

fun stripPcs :: "jsstring \<Rightarrow> jsstring" where
  "stripPcs [] = []"
| "stripPcs (c # cs) =
     (case matchPcs (c # cs) of
        Some n \<Rightarrow> stripPcs (drop (n - 1) cs)
      | None \<Rightarrow> c # stripPcs cs)"

text \<open>
  \<^verbatim>\<open>replace(/\b\d+\b/g, '')\<close>. The flag says whether the character before the position
  is a word character. A match is a whole run of digits between two word boundaries.
\<close>

definition matchNumber :: "bool \<Rightarrow> jsstring \<Rightarrow> nat option" where
  "matchNumber prevWord s =
     (if \<not> prevWord \<and> takeWhile isDigit s \<noteq> [] \<and> boundaryBefore (dropWhile isDigit s)
      then Some (length (takeWhile isDigit s)) else None)"

fun stripNumbersFrom :: "bool \<Rightarrow> jsstring \<Rightarrow> jsstring" where
  "stripNumbersFrom prevWord [] = []"
| "stripNumbersFrom prevWord (c # cs) =
     (case matchNumber prevWord (c # cs) of
        Some n \<Rightarrow> stripNumbersFrom True (drop (n - 1) cs)
      | None \<Rightarrow> c # stripNumbersFrom (isWordChar c) cs)"

definition stripNumbers :: "jsstring \<Rightarrow> jsstring" where
  "stripNumbers s = stripNumbersFrom False s"

text \<open>\<^verbatim>\<open>replace(/\s+/g, ' ')\<close>: every run of white space becomes one space.\<close>

fun collapseFrom :: "bool \<Rightarrow> jsstring \<Rightarrow> jsstring" where
  "collapseFrom inRun [] = []"
| "collapseFrom inRun (c # cs) =
     (if isSpace c then (if inRun then collapseFrom True cs else 32 # collapseFrom True cs)
      else c # collapseFrom False cs)"

definition collapseSpaces :: "jsstring \<Rightarrow> jsstring" where
  "collapseSpaces s = collapseFrom False s"

definition trim :: "jsstring \<Rightarrow> jsstring" where
  "trim s = rev (dropWhile isSpace (rev (dropWhile isSpace s)))"

text \<open>normalizeText; \<open>None\<close> is \<^verbatim>\<open>null\<close> (or \<^verbatim>\<open>undefined\<close>, as an argument).\<close>

definition normalizeText :: "runtime \<Rightarrow> jsstring option \<Rightarrow> jsstring option" where
  "normalizeText U str =
     (case str of
        None \<Rightarrow> None
      | Some s \<Rightarrow>
          if s = [] then None
          else Some (trim (collapseSpaces (stripNumbers (stripPcs (stripSpecial (stripEmoji
                       (normalizeNFKD U (toLowerCase U s)))))))))"

text \<open>
  \<^verbatim>\<open>levenshtein.get\<close> of the package fast-levenshtein is the edit distance of the two
  sequences of code units.
\<close>

fun levenshtein :: "jsstring \<Rightarrow> jsstring \<Rightarrow> nat" where
  "levenshtein [] ys = length ys"
| "levenshtein xs [] = length xs"
| "levenshtein (x # xs) (y # ys) =
     min (min (levenshtein xs (y # ys) + 1) (levenshtein (x # xs) ys + 1))
         (levenshtein xs ys + (if x = y then 0 else 1))"

text \<open>
  A number of JavaScript is a double. \<open>roundDouble q\<close> is the double nearest to \<open>q\<close>, ties
  going to the even significand, for \<open>0 \<le> q < 2\<close>, where the scores and the values they are
  computed from lie: \<open>ulp q\<close> is the distance of two neighbouring doubles around \<open>q\<close>,
  \<^verbatim>\<open>2^-52\<close> from 1 up and halved with each binary order of magnitude below, down to the
  subnormal numbers.
\<close>

definition roundHalfEven :: "real \<Rightarrow> int" where
  "roundHalfEven x =
     (let f = \<lfloor>x\<rfloor>; r = x - of_int f
      in if r < 1 / 2 then f else if 1 / 2 < r then f + 1 else if even f then f else f + 1)"

fun ulpBelow :: "nat \<Rightarrow> real \<Rightarrow> real \<Rightarrow> real \<Rightarrow> real" where
  "ulpBelow 0 lo u q = u"
| "ulpBelow (Suc k) lo u q = (if lo \<le> q then u else ulpBelow k (lo / 2) (u / 2) q)"

definition ulp :: "real \<Rightarrow> real" where
  "ulp q = ulpBelow 1022 1 (1 / 2 ^ 52) q"

definition roundDouble :: "real \<Rightarrow> real" where
  "roundDouble q = of_int (roundHalfEven (q / ulp q)) * ulp q"

text \<open>
  similarity: the division and the subtraction are those of doubles, each rounded.
  \<open>None\<close> is NaN, the value of the division \<^verbatim>\<open>0 / 0\<close> for two empty strings.
\<close>

definition similarity :: "jsstring \<Rightarrow> jsstring \<Rightarrow> real option" where
  "similarity a b =
     (let dist = levenshtein a b; m = max (length a) (length b)
      in if m = 0 then None else Some (roundDouble (1 - roundDouble (of_nat dist / of_nat m))))"

section \<open>The store and resolveCanonical (lib/itemNormalizer.js)\<close>

datatype entity_type = ItemEntity | CategoryEntity

record canonical_row =
  row_id :: nat
  canonical_name :: jsstring
  normalized_name :: jsstring

record mapping_row =
  raw_name :: jsstring
  normalized_raw_name :: jsstring
  canonical_id :: nat
  mapping_method :: string
  confidence :: real

record database =
  item_mappings :: "mapping_row list"
  canonical_items :: "canonical_row list"
  category_mappings :: "mapping_row list"
  canonical_categories :: "canonical_row list"

definition mappingTable :: "entity_type \<Rightarrow> database \<Rightarrow> mapping_row list" where
  "mappingTable t db = (if t = ItemEntity then item_mappings db else category_mappings db)"

definition canonicalTable :: "entity_type \<Rightarrow> database \<Rightarrow> canonical_row list" where
  "canonicalTable t db = (if t = ItemEntity then canonical_items db else canonical_categories db)"

definition setMappingTable :: "entity_type \<Rightarrow> mapping_row list \<Rightarrow> database \<Rightarrow> database" where
  "setMappingTable t rows db =
     (if t = ItemEntity then db\<lparr> item_mappings := rows \<rparr> else db\<lparr> category_mappings := rows \<rparr>)"

definition setCanonicalTable :: "entity_type \<Rightarrow> canonical_row list \<Rightarrow> database \<Rightarrow> database" where
  "setCanonicalTable t rows db =
     (if t = ItemEntity then db\<lparr> canonical_items := rows \<rparr> else db\<lparr> canonical_categories := rows \<rparr>)"

text \<open>
  A call of the store can fail (the network, the service); the client then answers with
  an error and no data. The flags say which of the calls of one resolution fail.
\<close>

record faults =
  lookupFails :: bool
  scanFails :: bool
  mappingInsertFails :: bool
  canonicalInsertFails :: bool

definition noFaults :: faults where
  "noFaults = \<lparr> lookupFails = False, scanFails = False, mappingInsertFails = False,
                canonicalInsertFails = False \<rparr>"

text \<open>
  \<^verbatim>\<open>.select(canonicalField).eq(mappingField, normalized).single()\<close>: the data is the row
  when exactly one row has the key, and \<^verbatim>\<open>null\<close> otherwise.
\<close>

definition selectMapping :: "faults \<Rightarrow> mapping_row list \<Rightarrow> jsstring \<Rightarrow> nat option" where
  "selectMapping F rows normalized =
     (if lookupFails F then None
      else case filter (\<lambda>m. normalized_raw_name m = normalized) rows of
             [m] \<Rightarrow> Some (canonical_id m)
           | _ \<Rightarrow> None)"

text \<open>\<^verbatim>\<open>.select('*')\<close>, with \<^verbatim>\<open>canonicalEntries || []\<close>.\<close>

definition selectAll :: "faults \<Rightarrow> canonical_row list \<Rightarrow> canonical_row list" where
  "selectAll F rows = (if scanFails F then [] else rows)"

text \<open>
  The insert of a mapping. The table has a unique index on the normalized raw name; a
  rejected insert leaves the table as it is. The caller does not look at the answer.
\<close>

definition insertMapping :: "faults \<Rightarrow> mapping_row \<Rightarrow> mapping_row list \<Rightarrow> mapping_row list" where
  "insertMapping F m rows =
     (if mappingInsertFails F \<or> normalized_raw_name m \<in> set (map normalized_raw_name rows)
      then rows else rows @ [m])"

text \<open>
  The insert of a canonical entity, \<^verbatim>\<open>.insert(...).select().single()\<close>. The normalized name
  is not null and has a unique index; the store gives the new row its id, one that no
  row of the table has.
\<close>

definition freshId :: "canonical_row list \<Rightarrow> nat" where
  "freshId rows = Suc (foldr max (map row_id rows) 0)"

definition insertCanonical ::
  "faults \<Rightarrow> jsstring \<Rightarrow> jsstring option \<Rightarrow> canonical_row list \<Rightarrow> error + canonical_row" where
  "insertCanonical F cname nname rows =
     (if canonicalInsertFails F then Inl (StoreError ''canonical insert'')
      else case nname of
             None \<Rightarrow> Inl (StoreError ''canonical insert'')
           | Some n \<Rightarrow>
               if n \<in> set (map normalized_name rows) then Inl (StoreError ''canonical insert'')
               else Inr \<lparr> row_id = freshId rows, canonical_name = cname, normalized_name = n \<rparr>)"

text \<open>The loop over the canonical entries: a strictly greater score takes the lead.\<close>

fun bestMatchLoop ::
  "jsstring \<Rightarrow> canonical_row list \<Rightarrow> canonical_row option \<times> real \<Rightarrow> canonical_row option \<times> real" where
  "bestMatchLoop normalized [] st = st"
| "bestMatchLoop normalized (entry # entries) (bestMatch, bestScore) =
     (case similarity normalized (normalized_name entry) of
        Some score \<Rightarrow>
          if score > bestScore then bestMatchLoop normalized entries (Some entry, score)
          else bestMatchLoop normalized entries (bestMatch, bestScore)
      | None \<Rightarrow> bestMatchLoop normalized entries (bestMatch, bestScore))"

text \<open>
  The display name of a new category: \<^verbatim>\<open>split(' ')\<close>, the first character of each word in
  upper case, \<^verbatim>\<open>join(' ')\<close>.
\<close>

fun splitOn :: "nat \<Rightarrow> jsstring \<Rightarrow> jsstring list" where
  "splitOn sep [] = [[]]"
| "splitOn sep (c # cs) =
     (if c = sep then [] # splitOn sep cs
      else (case splitOn sep cs of w # ws \<Rightarrow> (c # w) # ws | [] \<Rightarrow> [[c]]))"

fun joinWith :: "jsstring \<Rightarrow> jsstring list \<Rightarrow> jsstring" where
  "joinWith sep [] = []"
| "joinWith sep [w] = w"
| "joinWith sep (w # v # ws) = w @ sep @ joinWith sep (v # ws)"

definition capitalize :: "runtime \<Rightarrow> jsstring \<Rightarrow> jsstring" where
  "capitalize U w = toUpperCase U (take 1 w) @ drop 1 w"

text \<open>
  The display name of a new item: \<^verbatim>\<open>rawName.replace(/\b\d+\s*pcs?\b/i, '')\<close>, which drops
  the first match only, in either case of the letters.
\<close>

definition matchQuantity :: "bool \<Rightarrow> jsstring \<Rightarrow> nat option" where
  "matchQuantity prevWord s =
     (if \<not> prevWord \<and> takeWhile isDigit s \<noteq> [] then
        (let n = length (takeWhile isDigit s);
             r = dropWhile isDigit s;
             k = length (takeWhile isSpace r)
         in case dropWhile isSpace r of
              p # c # rest \<Rightarrow>
                if (p = 112 \<or> p = 80) \<and> (c = 99 \<or> c = 67) then
                  (case rest of
                     [] \<Rightarrow> Some (n + k + 2)
                   | x # rest' \<Rightarrow>
                       if (x = 115 \<or> x = 83) \<and> boundaryBefore rest' then Some (n + k + 3)
                       else if boundaryBefore rest then Some (n + k + 2) else None)
                else None
            | _ \<Rightarrow> None)
      else None)"

fun stripQuantityFrom :: "bool \<Rightarrow> jsstring \<Rightarrow> jsstring" where
  "stripQuantityFrom prevWord [] = []"
| "stripQuantityFrom prevWord (c # cs) =
     (case matchQuantity prevWord (c # cs) of
        Some n \<Rightarrow> drop (n - 1) cs
      | None \<Rightarrow> c # stripQuantityFrom (isWordChar c) cs)"

definition newCanonicalName :: "runtime \<Rightarrow> entity_type \<Rightarrow> jsstring \<Rightarrow> jsstring \<Rightarrow> jsstring" where
  "newCanonicalName U entityType rawName normalized =
     (if entityType = CategoryEntity
      then joinWith [32] (map (capitalize U) (splitOn 32 normalized))
      else trim (stripQuantityFrom False rawName))"

text \<open>The default thresholds are the doubles of the literals \<^verbatim>\<open>0.8\<close> and \<^verbatim>\<open>0.75\<close>.\<close>

definition defaultThreshold :: "entity_type \<Rightarrow> real option \<Rightarrow> real" where
  "defaultThreshold entityType fuzzyThreshold =
     (case fuzzyThreshold of
        None \<Rightarrow> if entityType = ItemEntity then roundDouble (8 / 10) else roundDouble (75 / 100)
      | Some t \<Rightarrow> t)"

text \<open>
  resolveCanonical takes the store and gives the store back with the result: \<open>Inl\<close> is
  the error thrown, \<open>Inr None\<close> is \<^verbatim>\<open>null\<close>. The guard \<^verbatim>\<open>!rawName\<close> of the first line is the
  guard of normalizeText, so a raw name passes it exactly when normalizeText gives a string.
\<close>

definition resolveCanonical ::
  "runtime \<Rightarrow> faults \<Rightarrow> database \<Rightarrow> jsstring option \<Rightarrow> entity_type \<Rightarrow> real option
     \<Rightarrow> (error + nat option) \<times> database" where
  "resolveCanonical U F db rawName entityType fuzzyThreshold =
     (case (rawName, normalizeText U rawName) of
        (Some raw, Some normalized) \<Rightarrow>
          (let threshold = defaultThreshold entityType fuzzyThreshold in
           case selectMapping F (mappingTable entityType db) normalized of
             Some existing \<Rightarrow> (Inr (Some existing), db)
           | None \<Rightarrow>
               (let canonicalEntries = selectAll F (canonicalTable entityType db);
                    (bestMatch, bestScore) = bestMatchLoop normalized canonicalEntries (None, 0)
                in if bestMatch \<noteq> None \<and> bestScore \<ge> threshold then
                     (Inr (Some (row_id (the bestMatch))),
                      setMappingTable entityType
                        (insertMapping F
                           \<lparr> raw_name = raw, normalized_raw_name = normalized,
                             canonical_id = row_id (the bestMatch),
                             mapping_method = ''fuzzy'', confidence = bestScore \<rparr>
                           (mappingTable entityType db)) db)
                   else
                     (let canonicalName = newCanonicalName U entityType raw normalized in
                      case insertCanonical F canonicalName (normalizeText U (Some canonicalName))
                             (canonicalTable entityType db) of
                        Inl err \<Rightarrow> (Inl err, db)
                      | Inr newEntry \<Rightarrow>
                          (Inr (Some (row_id newEntry)),
                           setMappingTable entityType
                             (insertMapping F
                                \<lparr> raw_name = raw, normalized_raw_name = normalized,
                                  canonical_id = row_id newEntry,
                                  mapping_method = ''created'', confidence = 1 \<rparr>
                                (mappingTable entityType db))
                             (setCanonicalTable entityType
                                (canonicalTable entityType db @ [newEntry]) db)))))
      | _ \<Rightarrow> (Inr None, db))"

text \<open>
  The runtime on strings of ASCII characters: there the lower and upper case are those of
  the letters A to Z, and NFKD changes nothing.
\<close>

definition asciiRuntime :: runtime where
  "asciiRuntime =
     \<lparr> toLowerCase = map (\<lambda>c. if isUpper c then c + 32 else c),
       toUpperCase = map (\<lambda>c. if isLower c then c - 32 else c),
       normalizeNFKD = (\<lambda>s. s) \<rparr>"

definition emptyDb :: database where
  "emptyDb = \<lparr> item_mappings = [], canonical_items = [], category_mappings = [],
               canonical_categories = [] \<rparr>"

section \<open>Notions for the properties of normalizeText\<close>

text \<open>
  The characters a normalized string is made of, and what it means for a function of the
  runtime to leave such strings alone.
\<close>

definition isPlain :: "nat \<Rightarrow> bool" where
  "isPlain c \<longleftrightarrow> isLower c \<or> isDigit c \<or> c = 32"

definition fixesPlain :: "(jsstring \<Rightarrow> jsstring) \<Rightarrow> bool" where
  "fixesPlain f \<longleftrightarrow> (\<forall>s. (\<forall>c \<in> set s. isPlain c) \<longrightarrow> f s = s)"

text \<open>
  No match of \<^verbatim>\<open>\b\d+\b\<close> starts anywhere in the string; the white space of the string is
  single spaces.
\<close>

fun noNumber :: "bool \<Rightarrow> jsstring \<Rightarrow> bool" where
  "noNumber prevWord [] = True"
| "noNumber prevWord (c # cs) = (matchNumber prevWord (c # cs) = None \<and> noNumber (isWordChar c) cs)"

fun collapsed :: "bool \<Rightarrow> jsstring \<Rightarrow> bool" where
  "collapsed inRun [] = True"
| "collapsed inRun (c # cs) =
     (if isSpace c then c = 32 \<and> \<not> inRun \<and> collapsed True cs else collapsed False cs)"



definition xyDb :: database where
  "xyDb = emptyDb \<lparr> canonical_items :=
     [\<lparr> row_id = 1, canonical_name = js ''x -y'', normalized_name = js ''x y'' \<rparr>] \<rparr>"

definition afghiDb :: database where
  "afghiDb = emptyDb \<lparr> canonical_items :=
     [\<lparr> row_id = 1, canonical_name = js ''Afghi'', normalized_name = js ''afghi'' \<rparr>] \<rparr>"

definition tacoDb :: database where
  "tacoDb = emptyDb \<lparr>
     item_mappings :=
       [\<lparr> raw_name = js ''Taco 12 pcs'', normalized_raw_name = js ''taco'', canonical_id = 1,
          mapping_method = ''created'', confidence = 1 \<rparr>],
     canonical_items :=
       [\<lparr> row_id = 1, canonical_name = js ''Taco'', normalized_name = js ''taco'' \<rparr>] \<rparr>"

section \<open>Properties of the query compiler\<close>

lemmas sql_defs =
  sum_total_def count_orderId_def sum_quantity_def sum_unitPrice_quantity_def
  date_createdAt_def date_trunc_hour_createdAt_def sql_value_def sql_count_star_def

lemmas plan_defs =
  buildQueryPlan_def metricValue_def buildSelectShape_def setIf_def setKey_def buildJoins_def
  needOrdersJoin_def needOrderItemsJoin_def whereConditions_def inArrayIf_def nonEmpty_def
  buildOrderBy_def plainIntent_def noFilters_def

lemma groupByLoop_date_cols:
  "Date \<in> set gb \<or> date_createdAt \<in> set (fst st) \<Longrightarrow> date_createdAt \<in> set (fst (groupByLoop gb st))"
proof (induction gb arbitrary: st)
  case Nil then show ?case by simp
next
  case (Cons d gb)
  show ?case
  proof (cases "d = Date \<or> date_createdAt \<in> set (fst st)")
    case True
    then have "date_createdAt \<in> set (fst (groupByStep d st))"
      by (cases d; cases st) auto
    then show ?thesis using Cons.IH by simp
  next
    case False
    with Cons.prems have "Date \<in> set gb" by auto
    then show ?thesis using Cons.IH by simp
  qed
qed

lemma map_of_setIf:
  "map_of (setIf b k v sh) = (if b then (map_of sh)(k \<mapsto> v) else map_of sh)"
  by (simp add: setIf_def setKey_def update_conv')

lemma created_at_label:
  "map_of (buildSelectShape ve gb) ''created_at'' =
     (if Hour \<in> set gb then Some date_trunc_hour_createdAt
      else if Date \<in> set gb then Some date_createdAt else None)"
  by (simp add: buildSelectShape_def map_of_setIf)



lemma new_Date_midnight: "new_Date s = Some t \<Longrightarrow> t mod msPerDay = 0"
  by (auto simp: new_Date_def split: if_splits option.splits)

lemma buildQueryPlan_known:
  assumes "\<forall>s. metric intent \<noteq> UnknownMetric s"
  obtains ve fo where "metricValue (metric intent) = Inr (ve, fo)"
    and "buildQueryPlan intent =
      Inr \<lparr> selectShape = buildSelectShape ve (groupBy intent),
            fromTable = (if fo then TOrders else TOrderItems),
            joins = buildJoins (metric intent) (filters intent) (groupBy intent),
            whereCond = (if whereConditions (filters intent) \<noteq> []
                         then Some (And (whereConditions (filters intent))) else None),
            groupByColumns = fst (groupByLoop (groupBy intent) ([], None)),
            orderByTerms = buildOrderBy (sortBy intent) (sortOrder intent)
                             (snd (groupByLoop (groupBy intent) ([], None))),
            limitRows = (case limit intent of None \<Rightarrow> None
                         | Some n \<Rightarrow> if n \<noteq> 0 then Some n else None) \<rparr>"
proof -
  obtain ve fo where mv: "metricValue (metric intent) = Inr (ve, fo)"
    using assms by (cases "metric intent") (auto simp: metricValue_def)
  show ?thesis
    by (rule that[OF mv]) (simp add: buildQueryPlan_def mv Let_def split: prod.splits)
qed

subsection \<open>The joins of items sold by category\<close>

text \<open>
  The plan of items sold by category with no filter: the line items, left-joined to the
  canonical categories only. The orders table is not joined.
\<close>

theorem items_sold_by_category_counterexample:
  "buildQueryPlan (plainIntent ItemsSold [Category]) =
     Inr \<lparr> selectShape = [(''value'', sum_quantity),
                          (''category'', ColumnE canonicalCategories_canonicalName)],
           fromTable = TOrderItems,
           joins = [Join LeftJoin TCanonicalCategories
                      (Eq orderItems_canonicalCategoryId canonicalCategories_id)],
           whereCond = None,
           groupByColumns = [ColumnE canonicalCategories_canonicalName],
           orderByTerms = [],
           limitRows = None \<rparr>"
  by (simp add: plan_defs)

text \<open>
  C1, as the code has it. For every intent with metric items_sold and groupBy equal to
  [category], the compiled plan starts from the line-items relation, left-joins the
  canonical-categories table on the canonical category id of the line item, selects the
  canonical category name under \<open>category\<close> and groups by it; it inner-joins the orders
  table on the order id exactly when the intent carries an order-level filter (locations,
  fulfillmentMethods, date_range or providers present), not otherwise. These joins, with
  the left join of the canonical items when the filter products is present, are all the
  joins of the plan, in this order.
\<close>

theorem items_sold_by_category_plan:
  assumes "metric intent = ItemsSold" and "groupBy intent = [Category]"
  shows "\<exists>plan. buildQueryPlan intent = Inr plan
           \<and> fromTable plan = TOrderItems
           \<and> TCanonicalCategories \<in> set (joinedTables plan)
           \<and> (TOrders \<in> set (joinedTables plan) \<longleftrightarrow> orderLevelFilter (filters intent))
           \<and> groupByColumns plan = [ColumnE canonicalCategories_canonicalName]
           \<and> joins plan =
               (if orderLevelFilter (filters intent)
                then [Join InnerJoin TOrders (Eq orderItems_orderId orders_orderId)] else [])
               @ (if products (filters intent) \<noteq> None
                  then [Join LeftJoin TCanonicalItems
                          (Eq orderItems_canonicalItemId canonicalItems_id)] else [])
               @ [Join LeftJoin TCanonicalCategories
                    (Eq orderItems_canonicalCategoryId canonicalCategories_id)]
           \<and> map_of (selectShape plan) ''category''
               = Some (ColumnE canonicalCategories_canonicalName)"
proof -
  from assms have known: "\<forall>s. metric intent \<noteq> UnknownMetric s" by simp
  obtain ve fo where mv: "metricValue (metric intent) = Inr (ve, fo)"
    and plan: "buildQueryPlan intent =
      Inr \<lparr> selectShape = buildSelectShape ve (groupBy intent),
            fromTable = (if fo then TOrders else TOrderItems),
            joins = buildJoins (metric intent) (filters intent) (groupBy intent),
            whereCond = (if whereConditions (filters intent) \<noteq> []
                         then Some (And (whereConditions (filters intent))) else None),
            groupByColumns = fst (groupByLoop (groupBy intent) ([], None)),
            orderByTerms = buildOrderBy (sortBy intent) (sortOrder intent)
                             (snd (groupByLoop (groupBy intent) ([], None))),
            limitRows = (case limit intent of None \<Rightarrow> None
                         | Some n \<Rightarrow> if n \<noteq> 0 then Some n else None) \<rparr>"
    by (rule buildQueryPlan_known[OF known])
  from mv assms have fo: "\<not> fo" by (simp add: metricValue_def)
  have tables: "set (map joinTable (buildJoins ItemsSold (filters intent) [Category])) =
      (if orderLevelFilter (filters intent) then {TOrders} else {})
      \<union> (if products (filters intent) \<noteq> None then {TCanonicalItems} else {})
      \<union> {TCanonicalCategories}"
    by (simp add: buildJoins_def needOrdersJoin_def orderLevelFilter_def)
  have js: "buildJoins ItemsSold (filters intent) [Category] =
               (if orderLevelFilter (filters intent)
                then [Join InnerJoin TOrders (Eq orderItems_orderId orders_orderId)] else [])
               @ (if products (filters intent) \<noteq> None
                  then [Join LeftJoin TCanonicalItems
                          (Eq orderItems_canonicalItemId canonicalItems_id)] else [])
               @ [Join LeftJoin TCanonicalCategories
                    (Eq orderItems_canonicalCategoryId canonicalCategories_id)]"
    by (simp add: buildJoins_def needOrdersJoin_def orderLevelFilter_def)
  have sel: "map_of (buildSelectShape ve [Category]) ''category''
               = Some (ColumnE canonicalCategories_canonicalName)"
    by (simp add: buildSelectShape_def map_of_setIf)
  have base: "\<exists>p. buildQueryPlan intent = Inr p
           \<and> fromTable p = TOrderItems
           \<and> TCanonicalCategories \<in> set (joinedTables p)
           \<and> (TOrders \<in> set (joinedTables p) \<longleftrightarrow> orderLevelFilter (filters intent))
           \<and> groupByColumns p = [ColumnE canonicalCategories_canonicalName]
           \<and> joins p = buildJoins ItemsSold (filters intent) [Category]
           \<and> map_of (selectShape p) ''category'' = map_of (buildSelectShape ve [Category]) ''category''"
    unfolding plan joinedTables_def using fo assms tables by simp
  then show ?thesis unfolding js sel .
qed

text \<open>
  The intent with no filter at all: no join to the orders table.
\<close>

theorem items_sold_by_category_plan_witness:
  "\<exists>plan. buildQueryPlan (plainIntent ItemsSold [Category]) = Inr plan
           \<and> fromTable plan = TOrderItems
           \<and> TCanonicalCategories \<in> set (joinedTables plan)
           \<and> TOrders \<notin> set (joinedTables plan)
           \<and> groupByColumns plan = [ColumnE canonicalCategories_canonicalName]
           \<and> joins plan = [Join LeftJoin TCanonicalCategories
                              (Eq orderItems_canonicalCategoryId canonicalCategories_id)]"
  using items_sold_by_category_plan [of "plainIntent ItemsSold [Category]"]
  by (simp add: plainIntent_def noFilters_def orderLevelFilter_def) blast

subsection \<open>Grouping by date and by hour\<close>

text \<open>
  The plan of orders by hour: the group-by column is the day-truncated timestamp, and
  the label selected under \<open>created_at\<close> is the hour-truncated one.
\<close>

theorem hour_grouping_counterexample:
  "buildQueryPlan (plainIntent Orders [Hour]) =
     Inr \<lparr> selectShape = [(''value'', count_orderId), (''created_at'', date_trunc_hour_createdAt)],
           fromTable = TOrders,
           joins = [],
           whereCond = None,
           groupByColumns = [date_createdAt],
           orderByTerms = [],
           limitRows = None \<rparr>
   \<and> date_createdAt \<noteq> date_trunc_hour_createdAt"
  by (simp add: plan_defs sql_defs)

text \<open>
  C3, as the code has it. For every intent with date in groupBy the compiled plan groups
  by the day-truncated order timestamp; for every intent with hour in groupBy the value
  selected under the visible label \<open>created_at\<close> is the hour-truncated order timestamp
  (with date and without hour it is the day-truncated one). Both expressions apply to the
  stored timestamp as it is, with no change of time zone.
\<close>

theorem time_grouping_plan:
  assumes "buildQueryPlan intent = Inr plan"
  shows "(Date \<in> set (groupBy intent) \<longrightarrow> date_createdAt \<in> set (groupByColumns plan))
       \<and> (Hour \<in> set (groupBy intent) \<longrightarrow>
            map_of (selectShape plan) ''created_at'' = Some date_trunc_hour_createdAt)
       \<and> (Date \<in> set (groupBy intent) \<and> Hour \<notin> set (groupBy intent) \<longrightarrow>
            map_of (selectShape plan) ''created_at'' = Some date_createdAt)"
proof -
  from assms have known: "\<forall>s. metric intent \<noteq> UnknownMetric s"
    by (auto simp: buildQueryPlan_def metricValue_def)
  obtain ve fo where "buildQueryPlan intent =
      Inr \<lparr> selectShape = buildSelectShape ve (groupBy intent),
            fromTable = (if fo then TOrders else TOrderItems),
            joins = buildJoins (metric intent) (filters intent) (groupBy intent),
            whereCond = (if whereConditions (filters intent) \<noteq> []
                         then Some (And (whereConditions (filters intent))) else None),
            groupByColumns = fst (groupByLoop (groupBy intent) ([], None)),
            orderByTerms = buildOrderBy (sortBy intent) (sortOrder intent)
                             (snd (groupByLoop (groupBy intent) ([], None))),
            limitRows = (case limit intent of None \<Rightarrow> None
                         | Some n \<Rightarrow> if n \<noteq> 0 then Some n else None) \<rparr>"
    by (rule buildQueryPlan_known[OF known])
  with assms have sel: "selectShape plan = buildSelectShape ve (groupBy intent)"
    and cols: "groupByColumns plan = fst (groupByLoop (groupBy intent) ([], None))"
    by auto
  show ?thesis
    unfolding sel cols by (simp add: created_at_label groupByLoop_date_cols)
qed

text \<open>
  Orders by date and hour.
\<close>

theorem time_grouping_plan_witness:
  "\<exists>plan. buildQueryPlan (plainIntent Orders [Date, Hour]) = Inr plan
      \<and> date_createdAt \<in> set (groupByColumns plan)
      \<and> map_of (selectShape plan) ''created_at'' = Some date_trunc_hour_createdAt"
proof -
  have "buildQueryPlan (plainIntent Orders [Date, Hour]) =
     Inr \<lparr> selectShape = [(''value'', count_orderId), (''created_at'', date_trunc_hour_createdAt)],
           fromTable = TOrders, joins = [], whereCond = None,
           groupByColumns = [date_createdAt, date_createdAt],
           orderByTerms = [], limitRows = None \<rparr>" (is "_ = Inr ?p")
    by (simp add: plan_defs)
  from this time_grouping_plan [OF this] show ?thesis
    by (intro exI[of _ ?p]) (simp add: plainIntent_def)
qed

subsection \<open>Sorting by a column the plan does not have\<close>

text \<open>
  C4 at the intent revenue by location, sorted by name: compilation succeeds, and the
  plan carries an ORDER BY on the canonical item name, a column of a table that the plan
  neither selects from nor joins. The specification says the plan carries no order-by
  clause.
\<close>

theorem sort_by_name_without_product:
  "buildQueryPlan ((plainIntent Revenue [Location])\<lparr> sortBy := Some SortName \<rparr>) =
     Inr \<lparr> selectShape = [(''value'', sum_total), (''store_id'', ColumnE orders_storeId)],
           fromTable = TOrders,
           joins = [],
           whereCond = None,
           groupByColumns = [ColumnE orders_storeId],
           orderByTerms = [AscBy (ColumnE canonicalItems_canonicalName)],
           limitRows = None \<rparr>"
  by (simp add: plan_defs)


text \<open>
  The sibling case does what the specification says: sorted by date with neither date nor
  hour in groupBy, the sort column stays undefined and the plan carries no ORDER BY.
\<close>

lemma groupByLoop_no_time:
  "Date \<notin> set gb \<Longrightarrow> Hour \<notin> set gb \<Longrightarrow> snd (groupByLoop gb st) = snd st"
proof (induction gb arbitrary: st)
  case Nil
  then show ?case by simp
next
  case (Cons d gb)
  from Cons.prems have "snd (groupByStep d st) = snd st"
    by (cases d; cases st) auto
  with Cons show ?case by simp
qed

lemma sort_by_date_without_time:
  assumes "buildQueryPlan intent = Inr plan" and "sortBy intent = Some SortDate"
    and "Date \<notin> set (groupBy intent)" and "Hour \<notin> set (groupBy intent)"
  shows "orderByTerms plan = []"
proof -
  from assms(1) have known: "\<forall>s. metric intent \<noteq> UnknownMetric s"
    by (auto simp: buildQueryPlan_def metricValue_def)
  obtain ve fo where "buildQueryPlan intent =
      Inr \<lparr> selectShape = buildSelectShape ve (groupBy intent),
            fromTable = (if fo then TOrders else TOrderItems),
            joins = buildJoins (metric intent) (filters intent) (groupBy intent),
            whereCond = (if whereConditions (filters intent) \<noteq> []
                         then Some (And (whereConditions (filters intent))) else None),
            groupByColumns = fst (groupByLoop (groupBy intent) ([], None)),
            orderByTerms = buildOrderBy (sortBy intent) (sortOrder intent)
                             (snd (groupByLoop (groupBy intent) ([], None))),
            limitRows = (case limit intent of None \<Rightarrow> None
                         | Some n \<Rightarrow> if n \<noteq> 0 then Some n else None) \<rparr>"
    by (rule buildQueryPlan_known[OF known])
  with assms(1) have "orderByTerms plan = buildOrderBy (sortBy intent) (sortOrder intent)
                             (snd (groupByLoop (groupBy intent) ([], None)))"
    by auto
  then show ?thesis
    using groupByLoop_no_time[OF assms(3,4), of "([], None)"]
    by (simp add: buildOrderBy_def assms(2))
qed

subsection \<open>The display name of a row\<close>







subsection \<open>The date range\<close>

lemma endOfDay_midnight:
  assumes "new_Date s = Some e"
  shows "setUTCHours 23 59 59 999 (new_Date s) = Some (e + msPerDay - 1)"
proof -
  from new_Date_midnight[OF assms] have "msPerDay dvd e"
    by (simp add: mod_eq_0_iff_dvd)
  then have "(e div msPerDay) * msPerDay = e" by simp
  then show ?thesis
    by (simp add: setUTCHours_def assms) (simp add: msPerDay_def)
qed

text \<open>
  The condition of a date range, for dates that parse: an order satisfies it exactly from
  midnight UTC of the start date to 23:59:59.999 UTC of the end date, both included.
\<close>

lemma date_range_bounds:
  assumes plan: "buildQueryPlan intent = Inr plan"
    and range: "date_range (filters intent) = Some r"
    and s: "new_Date (range_start r) = Some s"
    and e: "new_Date (range_end r) = Some e"
  shows "\<exists>rest. whereCond plan = Some (And (dateRangeCondition r # rest))
      \<and> dateRangeCondition r =
          And [Gte orders_createdAt (Some s), Lte orders_createdAt (Some (e + msPerDay - 1))]
      \<and> (\<forall>t. condHolds (orderAt t) (dateRangeCondition r) \<longleftrightarrow>
              s * usPerMs \<le> t \<and> t \<le> (e + msPerDay - 1) * usPerMs)"
proof -
  from plan have known: "\<forall>s. metric intent \<noteq> UnknownMetric s"
    by (auto simp: buildQueryPlan_def metricValue_def)
  obtain ve fo where "buildQueryPlan intent =
      Inr \<lparr> selectShape = buildSelectShape ve (groupBy intent),
            fromTable = (if fo then TOrders else TOrderItems),
            joins = buildJoins (metric intent) (filters intent) (groupBy intent),
            whereCond = (if whereConditions (filters intent) \<noteq> []
                         then Some (And (whereConditions (filters intent))) else None),
            groupByColumns = fst (groupByLoop (groupBy intent) ([], None)),
            orderByTerms = buildOrderBy (sortBy intent) (sortOrder intent)
                             (snd (groupByLoop (groupBy intent) ([], None))),
            limitRows = (case limit intent of None \<Rightarrow> None
                         | Some n \<Rightarrow> if n \<noteq> 0 then Some n else None) \<rparr>"
    by (rule buildQueryPlan_known[OF known])
  with plan have w: "whereCond plan = (if whereConditions (filters intent) \<noteq> []
                         then Some (And (whereConditions (filters intent))) else None)"
    by auto
  obtain rest where conds: "whereConditions (filters intent) = dateRangeCondition r # rest"
    by (simp add: whereConditions_def range)
  have cond: "dateRangeCondition r =
          And [Gte orders_createdAt (Some s), Lte orders_createdAt (Some (e + msPerDay - 1))]"
    by (simp add: dateRangeCondition_def s endOfDay_midnight[OF e])
  have "condHolds (orderAt t) (dateRangeCondition r) \<longleftrightarrow>
          s * usPerMs \<le> t \<and> t \<le> (e + msPerDay - 1) * usPerMs" for t
    unfolding cond by (auto simp: orderAt_def)
  with w conds cond show ?thesis by simp
qed

text \<open>
  C9 at the range from 2024-03-01 to 2024-03-10 and an order created half a millisecond
  before midnight UTC of March 11. The plan compares the order timestamp with
  23:59:59.999 UTC of March 10: that instant is included, March 11 00:00:00 is excluded,
  and so is the order at 23:59:59.9995 of March 10, an instant of the end day. The
  specification, and the comment of the code, have the whole end day included.
\<close>

theorem date_range_misses_last_millisecond:
  "buildQueryPlan marchIntent =
     Inr \<lparr> selectShape = [(''value'', sum_total), (''created_at'', date_createdAt)],
           fromTable = TOrders,
           joins = [],
           whereCond = Some (And [And [Gte orders_createdAt (Some 1709251200000),
                                       Lte orders_createdAt (Some 1710115199999)]]),
           groupByColumns = [date_createdAt],
           orderByTerms = [],
           limitRows = None \<rparr>
   \<and> new_Date ''2024-03-11'' = Some 1710115200000
   \<and> condHolds (orderAt 1709251200000000)
       (dateRangeCondition \<lparr> range_start = ''2024-03-01'', range_end = ''2024-03-10'' \<rparr>)
   \<and> condHolds (orderAt 1710115199999000)
       (dateRangeCondition \<lparr> range_start = ''2024-03-01'', range_end = ''2024-03-10'' \<rparr>)
   \<and> \<not> condHolds (orderAt 1710115199999500)
       (dateRangeCondition \<lparr> range_start = ''2024-03-01'', range_end = ''2024-03-10'' \<rparr>)
   \<and> (1710115199999500 :: int) < 1710115200000 * usPerMs
   \<and> \<not> condHolds (orderAt 1710115200000000)
       (dateRangeCondition \<lparr> range_start = ''2024-03-01'', range_end = ''2024-03-10'' \<rparr>)"
proof -
  let ?r = "\<lparr> range_start = ''2024-03-01'', range_end = ''2024-03-10'' \<rparr>"
  have s: "new_Date ''2024-03-01'' = Some 1709251200000"
    by (simp add: new_Date_def digit_val_def days_from_civil_def msPerDay_def)
  have e: "new_Date ''2024-03-10'' = Some 1710028800000"
    by (simp add: new_Date_def digit_val_def days_from_civil_def msPerDay_def)
  have n: "new_Date ''2024-03-11'' = Some 1710115200000"
    by (simp add: new_Date_def digit_val_def days_from_civil_def msPerDay_def)
  have cond: "dateRangeCondition ?r =
      And [Gte orders_createdAt (Some 1709251200000), Lte orders_createdAt (Some 1710115199999)]"
    by (simp add: dateRangeCondition_def s e setUTCHours_def msPerDay_def)
  have plan: "buildQueryPlan marchIntent =
     Inr \<lparr> selectShape = [(''value'', sum_total), (''created_at'', date_createdAt)],
           fromTable = TOrders,
           joins = [],
           whereCond = Some (And [dateRangeCondition ?r]),
           groupByColumns = [date_createdAt],
           orderByTerms = [],
           limitRows = None \<rparr>"
    by (simp add: marchIntent_def plan_defs)
  have holds: "condHolds (orderAt t) (dateRangeCondition ?r) \<longleftrightarrow>
      1709251200000000 \<le> t \<and> t \<le> 1710115199999000" for t
    unfolding cond by (auto simp: orderAt_def usPerMs_def)
  show ?thesis
    unfolding plan holds using n by (simp add: cond usPerMs_def)
qed

section \<open>Properties of the similarity score\<close>

lemma levenshtein_same: "levenshtein xs xs = 0"
  by (induction xs) auto

lemma levenshtein_le_max: "levenshtein xs ys \<le> max (length xs) (length ys)"
  by (induction xs ys rule: levenshtein.induct) auto

subsection \<open>Rounding to a double\<close>

lemma ulpBelow_numeral:
  "ulpBelow (numeral n) lo u q =
     (if lo \<le> q then u else ulpBelow (pred_numeral n) (lo / 2) (u / 2) q)"
  by (simp add: numeral_eq_Suc)

lemma ulpBelow_power: "\<exists>i. ulpBelow k lo u q = u / 2 ^ i"
proof (induction k arbitrary: lo u)
  case 0
  have "ulpBelow 0 lo u q = u / 2 ^ 0" by simp
  then show ?case by blast
next
  case (Suc k)
  show ?case
  proof (cases "lo \<le> q")
    case True
    then have "ulpBelow (Suc k) lo u q = u / 2 ^ 0" by simp
    then show ?thesis by blast
  next
    case False
    from Suc obtain i where "ulpBelow k (lo / 2) (u / 2) q = u / 2 / 2 ^ i" by blast
    with False have "ulpBelow (Suc k) lo u q = u / 2 ^ Suc i" by simp
    then show ?thesis by blast
  qed
qed

lemma ulp_power: "\<exists>j. ulp q = 1 / 2 ^ j"
proof -
  obtain i where "ulp q = 1 / 2 ^ 52 / 2 ^ i"
    unfolding ulp_def using ulpBelow_power by blast
  then have "ulp q = 1 / 2 ^ (52 + i)" by (simp add: power_add)
  then show ?thesis by blast
qed

lemma roundHalfEven_of_int: "roundHalfEven (of_int n) = n"
  by (simp add: roundHalfEven_def)

lemma roundHalfEven_nonneg: "0 \<le> x \<Longrightarrow> 0 \<le> roundHalfEven x"
  by (auto simp: roundHalfEven_def Let_def)

lemma roundHalfEven_le: 
  assumes "x \<le> of_int n"
  shows "roundHalfEven x \<le> n"
proof (cases "x = of_int n")
  case True
  then show ?thesis by (simp add: roundHalfEven_of_int)
next
  case False
  with assms have "x < of_int n" by simp
  then have "\<lfloor>x\<rfloor> < n" by (simp add: floor_less_iff)
  moreover have "roundHalfEven x \<le> \<lfloor>x\<rfloor> + 1"
    by (auto simp: roundHalfEven_def Let_def)
  ultimately show ?thesis by simp
qed

lemma roundDouble_0: "roundDouble 0 = 0"
  by (simp add: roundDouble_def roundHalfEven_def)

lemma roundDouble_1: "roundDouble 1 = 1"
proof -
  have u: "ulp 1 = 1 / 2 ^ 52" by (simp add: ulp_def ulpBelow_numeral)
  have "(1::real) / (1 / 2 ^ 52) = of_int (2 ^ 52)" by simp
  then have "roundHalfEven (1 / ulp 1) = 2 ^ 52"
    unfolding u by (simp only: roundHalfEven_of_int)
  then show ?thesis by (simp add: roundDouble_def u)
qed

lemma roundDouble_unit:
  assumes "0 \<le> q" and "q \<le> 1"
  shows "0 \<le> roundDouble q" and "roundDouble q \<le> 1"
proof -
  obtain j where u: "ulp q = 1 / 2 ^ j" using ulp_power by blast
  then have pos: "0 < ulp q" by simp
  from assms(1) pos have "0 \<le> q / ulp q" by simp
  then have "0 \<le> roundHalfEven (q / ulp q)" by (rule roundHalfEven_nonneg)
  with pos show "0 \<le> roundDouble q" by (simp add: roundDouble_def)
  have "q / ulp q = q * 2 ^ j" by (simp add: u)
  also have "\<dots> \<le> 2 ^ j" using assms(2) by simp
  also have "(2::real) ^ j = of_int (2 ^ j)" by simp
  finally have "roundHalfEven (q / ulp q) \<le> 2 ^ j" by (rule roundHalfEven_le)
  then have "real_of_int (roundHalfEven (q / ulp q)) \<le> 2 ^ j"
    by (metis of_int_le_iff of_int_numeral of_int_power)
  then have "real_of_int (roundHalfEven (q / ulp q)) * ulp q \<le> 2 ^ j * ulp q"
    using pos by (simp only: mult_le_cancel_right_pos)
  then show "roundDouble q \<le> 1" by (simp add: roundDouble_def u)
qed

text \<open>
  C6 at two empty strings: the score is NaN, the value of \<^verbatim>\<open>1 - 0 / 0\<close>, and no number
  from 0 to 1, although the two strings are identical. The specification, and the
  docstring of the function, have the score within 0 and 1, and 1 for identical strings.
\<close>

theorem similarity_empty_undefined: "similarity [] [] = None"
  by (simp add: similarity_def)

text \<open>
  Two empty strings are the only such input: the score of a non-empty string with itself
  is 1, and the score of two strings that are not both empty is the rounded value of
  1 - editDistance(a, b) / max(len(a), len(b)) and lies within 0 and 1.
\<close>

lemma similarity_bounds:
  "(a \<noteq> [] \<longrightarrow> similarity a a = Some 1)
   \<and> (a \<noteq> [] \<or> b \<noteq> [] \<longrightarrow>
        (\<exists>s. similarity a b = Some s \<and> 0 \<le> s \<and> s \<le> 1
           \<and> s = roundDouble (1 - roundDouble
                   (of_nat (levenshtein a b) / of_nat (max (length a) (length b))))))"
proof (intro conjI impI)
  assume "a \<noteq> []"
  then show "similarity a a = Some 1"
    by (simp add: similarity_def levenshtein_same roundDouble_0 roundDouble_1)
next
  assume ne: "a \<noteq> [] \<or> b \<noteq> []"
  let ?m = "max (length a) (length b)"
  let ?q = "(of_nat (levenshtein a b) :: real) / of_nat ?m"
  from ne have "0 < length a \<or> 0 < length b" by simp
  then have m: "0 < ?m" by (simp add: less_max_iff_disj)
  have le: "(of_nat (levenshtein a b) :: real) \<le> of_nat ?m"
    using levenshtein_le_max[of a b] by (simp only: of_nat_le_iff)
  have q1: "?q \<le> 1" using m le by (simp add: divide_le_eq_1)
  have q0: "0 \<le> ?q" by simp
  note r = roundDouble_unit[OF q0 q1]
  from r have d0: "0 \<le> 1 - roundDouble ?q" and d1: "1 - roundDouble ?q \<le> 1" by simp_all
  note s = roundDouble_unit[OF d0 d1]
  have "similarity a b = Some (roundDouble (1 - roundDouble ?q))"
    using ne by (auto simp: similarity_def Let_def)
  with s show "\<exists>s. similarity a b = Some s \<and> 0 \<le> s \<and> s \<le> 1
           \<and> s = roundDouble (1 - roundDouble ?q)"
    by blast
qed

subsection \<open>Some scores\<close>

text \<open>
  The doubles of \<^verbatim>\<open>1 / 5\<close>, \<^verbatim>\<open>4 / 5\<close>, \<^verbatim>\<open>1 - 1 / 5\<close> and \<^verbatim>\<open>1 - 4 / 5\<close>: the third is the double
  of 0.8, the last is below the double of 0.2.
\<close>

lemma roundDouble_fifth: "roundDouble (1 / 5) = 7205759403792794 / 2 ^ 55"
proof -
  have u: "ulp (1 / 5) = 1 / 2 ^ 55" by (simp add: ulp_def ulpBelow_numeral)
  show ?thesis unfolding roundDouble_def u by (simp add: roundHalfEven_def Let_def)
qed

lemma roundDouble_four_fifths: "roundDouble (4 / 5) = 7205759403792794 / 2 ^ 53"
proof -
  have u: "ulp (4 / 5) = 1 / 2 ^ 53" by (simp add: ulp_def ulpBelow_numeral)
  show ?thesis unfolding roundDouble_def u by (simp add: roundHalfEven_def Let_def)
qed


lemma one_minus_four_fifths:
  "roundDouble (1 - roundDouble (4 / 5)) = 1801439850948198 / 2 ^ 53"
proof -
  have v: "1 - 7205759403792794 / 2 ^ 53 = (1801439850948198 :: real) / 2 ^ 53" by simp
  have u: "ulp (1801439850948198 / 2 ^ 53) = 1 / 2 ^ 55" by (simp add: ulp_def ulpBelow_numeral)
  have "roundDouble (1801439850948198 / 2 ^ 53) = 1801439850948198 / 2 ^ 53"
    unfolding roundDouble_def u by (simp add: roundHalfEven_def Let_def)
  then show ?thesis
    unfolding roundDouble_four_fifths v .
qed

lemma below_one_fifth: "roundDouble (1 - roundDouble (4 / 5)) < roundDouble (1 / 5)"
  unfolding one_minus_four_fifths roundDouble_fifth by simp

lemma roundDouble_half: "roundDouble (1 / 2) = 1 / 2"
proof -
  have u: "ulp (1 / 2) = 1 / 2 ^ 53" by (simp add: ulp_def ulpBelow_numeral)
  show ?thesis unfolding roundDouble_def u by (simp add: roundHalfEven_def Let_def)
qed

lemma roundDouble_three_quarters: "roundDouble (75 / 100) = 3 / 4"
proof -
  have u: "ulp (75 / 100) = 1 / 2 ^ 53" by (simp add: ulp_def ulpBelow_numeral)
  show ?thesis unfolding roundDouble_def u by (simp add: roundHalfEven_def Let_def)
qed

section \<open>Properties of resolveCanonical\<close>

lemmas char_defs = isDigit_def isLower_def isUpper_def isWordChar_def isSpace_def
  isHighSurrogate_def isLowSurrogate_def isEmoji_def codePoint_def boundaryBefore_def

lemmas norm_defs = normalizeText_def trim_def collapseSpaces_def stripNumbers_def
  matchNumber_def matchPcs_def stripSpecial_def asciiRuntime_def js_def


lemma normalizeText_Some:
  assumes "normalizeText U rawName = Some normalized"
  obtains raw where "rawName = Some raw" and "raw \<noteq> []"
  using assms by (cases rawName) (auto simp: normalizeText_def split: if_splits)



lemma filter_key_le1: "distinct (map f xs) \<Longrightarrow> length (filter (\<lambda>x. f x = k) xs) \<le> 1"
proof (induction xs)
  case Nil
  then show ?case by simp
next
  case (Cons a xs)
  show ?case
  proof (cases "f a = k")
    case True
    have "filter (\<lambda>x. f x = k) xs = []"
      unfolding filter_empty_conv
    proof
      fix x assume "x \<in> set xs"
      then have "f x \<in> f ` set xs" by (rule imageI)
      with Cons.prems True show "f x \<noteq> k" by auto
    qed
    with True show ?thesis by simp
  next
    case False
    with Cons show ?thesis by simp
  qed
qed

lemma selectMapping_None_unique:
  assumes "selectMapping F rows k = None" and "\<not> lookupFails F"
    and "distinct (map normalized_raw_name rows)"
  shows "k \<notin> set (map normalized_raw_name rows)"
proof
  assume "k \<in> set (map normalized_raw_name rows)"
  then obtain m where m: "m \<in> set rows" "normalized_raw_name m = k" by auto
  from assms(3) have "length (filter (\<lambda>m. normalized_raw_name m = k) rows) \<le> 1"
    by (rule filter_key_le1)
  moreover from m have "m \<in> set (filter (\<lambda>m. normalized_raw_name m = k) rows)" by simp
  ultimately obtain m' where "filter (\<lambda>m. normalized_raw_name m = k) rows = [m']"
    by (cases "filter (\<lambda>m. normalized_raw_name m = k) rows") auto
  with assms(1,2) show False by (simp add: selectMapping_def)
qed





text \<open>
  The comparison is one of doubles. With four edits in five characters the code computes
  \<^verbatim>\<open>1 - 4 / 5\<close>, the double 0.19999999999999996, which lies below the double of the
  literal \<^verbatim>\<open>0.2\<close>: with that threshold no match is taken, and a new canonical entity
  is created.
\<close>

lemma fuzzy_match_below_one_fifth:
  "similarity (js ''abcde'') (js ''afghi'') = Some (1801439850948198 / 2 ^ 53)
   \<and> roundDouble (2 / 10) = 7205759403792794 / 2 ^ 55
   \<and> resolveCanonical asciiRuntime noFaults afghiDb
        (Some (js ''abcde'')) ItemEntity (Some (roundDouble (2 / 10))) =
       (Inr (Some 2),
        afghiDb \<lparr> item_mappings :=
                  [\<lparr> raw_name = js ''abcde'', normalized_raw_name = js ''abcde'', canonical_id = 2,
                     mapping_method = ''created'', confidence = 1 \<rparr>],
                canonical_items :=
                  [\<lparr> row_id = 1, canonical_name = js ''Afghi'', normalized_name = js ''afghi'' \<rparr>,
                   \<lparr> row_id = 2, canonical_name = js ''abcde'', normalized_name = js ''abcde'' \<rparr>] \<rparr>)"
proof -
  let ?row = "\<lparr> row_id = 1, canonical_name = js ''Afghi'', normalized_name = js ''afghi'' \<rparr>"
  let ?db = afghiDb
  let ?s = "1801439850948198 / 2 ^ 53 :: real"
  have n: "normalizeText asciiRuntime (Some (js ''abcde'')) = Some (js ''abcde'')"
    by (simp add: char_defs norm_defs)
  have s: "similarity (js ''abcde'') (js ''afghi'') = Some ?s"
    using one_minus_four_fifths by (simp add: similarity_def js_def)
  have r: "roundDouble (2 / 10) = 7205759403792794 / 2 ^ 55"
    using roundDouble_fifth by simp
  have c: "newCanonicalName asciiRuntime ItemEntity (js ''abcde'') (js ''abcde'') = js ''abcde''"
    by (simp add: newCanonicalName_def matchQuantity_def trim_def js_def char_defs)
  have tbl: "canonicalTable ItemEntity ?db = [?row]" "mappingTable ItemEntity ?db = []"
    by (simp_all add: afghiDb_def emptyDb_def canonicalTable_def mappingTable_def)
  have sel: "selectMapping noFaults (mappingTable ItemEntity ?db) (js ''abcde'') = None"
    by (simp add: tbl selectMapping_def)
  have loop: "bestMatchLoop (js ''abcde'') (selectAll noFaults (canonicalTable ItemEntity ?db)) (None, 0)
      = (Some ?row, ?s)"
    by (simp add: tbl selectAll_def noFaults_def s)
  have ins: "insertCanonical noFaults (js ''abcde'') (Some (js ''abcde'')) (canonicalTable ItemEntity ?db)
      = Inr \<lparr> row_id = 2, canonical_name = js ''abcde'', normalized_name = js ''abcde'' \<rparr>"
    by (simp add: tbl insertCanonical_def noFaults_def freshId_def) (simp add: js_def)
  have "resolveCanonical asciiRuntime noFaults ?db (Some (js ''abcde'')) ItemEntity
          (Some (roundDouble (2 / 10))) =
       (Inr (Some 2),
        setMappingTable ItemEntity
          [\<lparr> raw_name = js ''abcde'', normalized_raw_name = js ''abcde'', canonical_id = 2,
                     mapping_method = ''created'', confidence = 1 \<rparr>]
          (setCanonicalTable ItemEntity
             [?row, \<lparr> row_id = 2, canonical_name = js ''abcde'', normalized_name = js ''abcde'' \<rparr>] ?db))"
    by (simp add: resolveCanonical_def n sel loop c ins defaultThreshold_def roundDouble_fifth Let_def)
       (simp add: tbl insertMapping_def noFaults_def)
  then show ?thesis
    using s r by (simp add: setMappingTable_def setCanonicalTable_def afghiDb_def emptyDb_def)
qed

lemma table_simps:
  "mappingTable et (setMappingTable et rows db) = rows"
  "canonicalTable et (setMappingTable et rows db) = canonicalTable et db"
  "mappingTable et (setCanonicalTable et crows db) = mappingTable et db"
  "canonicalTable et (setCanonicalTable et crows db) = crows"
  by (simp_all add: mappingTable_def canonicalTable_def setMappingTable_def setCanonicalTable_def)

lemma selectMapping_after_insert:
  assumes "k \<notin> set (map normalized_raw_name rows)" and "normalized_raw_name m = k"
    and "\<not> lookupFails F"
  shows "selectMapping F (rows @ [m]) k = Some (canonical_id m)"
proof -
  from assms(1) have "filter (\<lambda>m. normalized_raw_name m = k) rows = []"
    by (auto simp: filter_empty_conv)
  with assms(2,3) show ?thesis by (simp add: selectMapping_def)
qed

lemma insertCanonical_Inr:
  assumes "insertCanonical F cname nname rows = Inr e"
  shows "normalized_name e \<notin> set (map normalized_name rows)"
  using assms by (auto simp: insertCanonical_def split: if_splits option.splits)

text \<open>
  C8, as the code has it. For every raw name and entity type, when the first resolution
  returns and the store fails neither its lookup nor its insert of the mapping, a second
  resolution of the same raw name (its lookup not failing) returns the same canonical id
  and leaves the store as it is, so it creates no second CanonicalEntity row; the first
  resolution creates at most one row, and the tables keep their unique normalized names.
\<close>

theorem resolve_twice_same_id:
  assumes uniqM: "distinct (map normalized_raw_name (mappingTable et db))"
    and uniqC: "distinct (map normalized_name (canonicalTable et db))"
    and f1: "\<not> lookupFails F1" "\<not> mappingInsertFails F1"
    and f2: "\<not> lookupFails F2"
    and first: "resolveCanonical U F1 db rawName et th = (Inr r, db1)"
  shows "resolveCanonical U F2 db1 rawName et th2 = (Inr r, db1)
       \<and> distinct (map normalized_name (canonicalTable et db1))
       \<and> distinct (map normalized_raw_name (mappingTable et db1))
       \<and> length (canonicalTable et db1) \<le> Suc (length (canonicalTable et db))"
proof (cases "normalizeText U rawName")
  case None
  then have "\<And>F d t. resolveCanonical U F d rawName et t = (Inr None, d)"
    by (simp add: resolveCanonical_def split: option.splits)
  with first uniqM uniqC show ?thesis by auto
next
  case (Some normalized)
  then obtain raw where raw: "rawName = Some raw" "raw \<noteq> []" by (rule normalizeText_Some)
  note nt = Some[unfolded raw]
  show ?thesis
  proof (cases "selectMapping F1 (mappingTable et db) normalized")
    case (Some existing)
    with first have r: "r = Some existing" "db1 = db"
      by (simp_all add: resolveCanonical_def raw nt)
    from Some f1(1) f2 have "selectMapping F2 (mappingTable et db) normalized = Some existing"
      by (simp add: selectMapping_def)
    then have "resolveCanonical U F2 db rawName et th2 = (Inr (Some existing), db)"
      by (simp add: resolveCanonical_def raw nt)
    with r uniqM uniqC show ?thesis by simp
  next
    case None
    have fresh: "normalized \<notin> set (map normalized_raw_name (mappingTable et db))"
      using None f1(1) uniqM by (rule selectMapping_None_unique)
    obtain bm bs where loop:
      "bestMatchLoop normalized (selectAll F1 (canonicalTable et db)) (None, 0) = (bm, bs)"
      by (cases "bestMatchLoop normalized (selectAll F1 (canonicalTable et db)) (None, 0)")
    show ?thesis
    proof (cases "bm \<noteq> None \<and> defaultThreshold et th \<le> bs")
      case True
      let ?m = "\<lparr> raw_name = raw, normalized_raw_name = normalized,
                   canonical_id = row_id (the bm), mapping_method = ''fuzzy'', confidence = bs \<rparr>"
      from first True have r: "r = Some (row_id (the bm))"
        and db1: "db1 = setMappingTable et (mappingTable et db @ [?m]) db"
        using fresh f1(2)
        by (simp_all add: resolveCanonical_def raw nt None loop insertMapping_def)
      have sel: "selectMapping F2 (mappingTable et db1) normalized = Some (row_id (the bm))"
        unfolding db1 table_simps using selectMapping_after_insert[OF fresh _ f2, of ?m] by simp
      have "resolveCanonical U F2 db1 rawName et th2 = (Inr r, db1)"
        by (simp add: resolveCanonical_def raw nt sel r)
      moreover have "distinct (map normalized_raw_name (mappingTable et db1))"
        unfolding db1 table_simps using uniqM fresh by simp
      moreover have "canonicalTable et db1 = canonicalTable et db"
        unfolding db1 table_simps ..
      ultimately show ?thesis using uniqC by simp
    next
      case False
      let ?cn = "newCanonicalName U et raw normalized"
      from first False obtain newEntry where ins:
        "insertCanonical F1 ?cn (normalizeText U (Some ?cn)) (canonicalTable et db) = Inr newEntry"
        by (cases "insertCanonical F1 ?cn (normalizeText U (Some ?cn)) (canonicalTable et db)")
           (auto simp: resolveCanonical_def raw nt None loop Let_def)
      let ?m = "\<lparr> raw_name = raw, normalized_raw_name = normalized,
                   canonical_id = row_id newEntry, mapping_method = ''created'', confidence = 1 \<rparr>"
      from first False ins have r: "r = Some (row_id newEntry)"
        and db1: "db1 = setMappingTable et (mappingTable et db @ [?m])
                          (setCanonicalTable et (canonicalTable et db @ [newEntry]) db)"
        using fresh f1(2)
        by (auto simp: resolveCanonical_def raw nt None loop insertMapping_def Let_def)
      have sel: "selectMapping F2 (mappingTable et db1) normalized = Some (row_id newEntry)"
        unfolding db1 table_simps using selectMapping_after_insert[OF fresh _ f2, of ?m] by simp
      have "resolveCanonical U F2 db1 rawName et th2 = (Inr r, db1)"
        by (simp add: resolveCanonical_def raw nt sel r)
      moreover have "distinct (map normalized_raw_name (mappingTable et db1))"
        unfolding db1 table_simps using uniqM fresh by simp
      moreover have "canonicalTable et db1 = canonicalTable et db @ [newEntry]"
        unfolding db1 table_simps ..
      moreover have "distinct (map normalized_name (canonicalTable et db @ [newEntry]))"
        using uniqC insertCanonical_Inr[OF ins] by simp
      ultimately show ?thesis by simp
    qed
  qed
qed


lemma resolve_taco:
  "resolveCanonical asciiRuntime noFaults emptyDb (Some (js ''Taco 12 pcs'')) ItemEntity None =
     (Inr (Some 1), tacoDb)"
proof -
  have n: "normalizeText asciiRuntime (Some (js ''Taco 12 pcs'')) = Some (js ''taco'')"
    by (simp add: char_defs norm_defs)
  have c: "newCanonicalName asciiRuntime ItemEntity (js ''Taco 12 pcs'') (js ''taco'') = js ''Taco''"
    by (simp add: newCanonicalName_def matchQuantity_def trim_def js_def char_defs)
  have n': "normalizeText asciiRuntime (Some (js ''Taco'')) = Some (js ''taco'')"
    by (simp add: char_defs norm_defs)
  have tbl: "canonicalTable ItemEntity emptyDb = []" "mappingTable ItemEntity emptyDb = []"
    by (simp_all add: emptyDb_def canonicalTable_def mappingTable_def)
  have ins: "insertCanonical noFaults (js ''Taco'') (Some (js ''taco'')) [] =
      Inr \<lparr> row_id = 1, canonical_name = js ''Taco'', normalized_name = js ''taco'' \<rparr>"
    by (simp add: insertCanonical_def noFaults_def freshId_def)
  show ?thesis
    by (simp add: resolveCanonical_def n c n' tbl ins Let_def selectMapping_def selectAll_def)
       (simp add: insertMapping_def noFaults_def setMappingTable_def setCanonicalTable_def
          tacoDb_def emptyDb_def)
qed

text \<open>
  An unseen item resolved twice, from the empty store.
\<close>

theorem resolve_twice_same_id_witness:
  "resolveCanonical asciiRuntime noFaults emptyDb (Some (js ''Taco 12 pcs'')) ItemEntity None =
     (Inr (Some 1), tacoDb)
   \<and> resolveCanonical asciiRuntime noFaults tacoDb (Some (js ''Taco 12 pcs'')) ItemEntity None =
     (Inr (Some 1), tacoDb)
   \<and> length (canonical_items tacoDb) = 1"
proof -
  have tbl: "canonicalTable ItemEntity emptyDb = []" "mappingTable ItemEntity emptyDb = []"
    by (simp_all add: emptyDb_def canonicalTable_def mappingTable_def)
  have "resolveCanonical asciiRuntime noFaults tacoDb (Some (js ''Taco 12 pcs'')) ItemEntity None =
     (Inr (Some 1), tacoDb)
       \<and> distinct (map normalized_name (canonicalTable ItemEntity tacoDb))
       \<and> distinct (map normalized_raw_name (mappingTable ItemEntity tacoDb))
       \<and> length (canonicalTable ItemEntity tacoDb) \<le> Suc (length (canonicalTable ItemEntity emptyDb))"
    by (rule resolve_twice_same_id [where ?F1.0 = noFaults and db = emptyDb and th = None,
          OF _ _ _ _ _ resolve_taco])
       (simp_all add: tbl noFaults_def)
  then show ?thesis
    using resolve_taco by (simp add: tacoDb_def emptyDb_def)
qed

text \<open>
  A first resolution whose insert of the mapping fails still returns the id it created
  (the code does not look at the answer of that insert). The raw name
  \<^verbatim>\<open>x 5pc-y\<close> normalizes to \<^verbatim>\<open>x 5pcy\<close>, while the display name \<^verbatim>\<open>x -y\<close> of the new entity
  normalizes to \<^verbatim>\<open>x y\<close>, of score one half. A second resolution finds no mapping and no
  match, tries to create the entity again, and throws the violation of the unique index.
\<close>

theorem resolve_twice_after_failed_mapping_insert:
  "resolveCanonical asciiRuntime (noFaults\<lparr> mappingInsertFails := True \<rparr>) emptyDb
      (Some (js ''x 5pc-y'')) ItemEntity None = (Inr (Some 1), xyDb)
   \<and> item_mappings xyDb = []
   \<and> similarity (js ''x 5pcy'') (js ''x y'') = Some (1 / 2)
   \<and> resolveCanonical asciiRuntime noFaults xyDb
      (Some (js ''x 5pc-y'')) ItemEntity None = (Inl (StoreError ''canonical insert''), xyDb)"
proof -
  let ?M = "noFaults\<lparr> mappingInsertFails := True \<rparr>"
  have n: "normalizeText asciiRuntime (Some (js ''x 5pc-y'')) = Some (js ''x 5pcy'')"
    by (simp add: char_defs norm_defs)
  have c: "newCanonicalName asciiRuntime ItemEntity (js ''x 5pc-y'') (js ''x 5pcy'') = js ''x -y''"
    by (simp add: newCanonicalName_def matchQuantity_def trim_def js_def char_defs)
  have n': "normalizeText asciiRuntime (Some (js ''x -y'')) = Some (js ''x y'')"
    by (simp add: char_defs norm_defs)
  have s: "similarity (js ''x 5pcy'') (js ''x y'') = Some (1 / 2)"
    by (simp add: similarity_def js_def roundDouble_half)
  have t: "\<not> defaultThreshold ItemEntity None \<le> 1 / 2"
    by (simp add: defaultThreshold_def roundDouble_four_fifths)
  have tbl: "canonicalTable ItemEntity emptyDb = []" "mappingTable ItemEntity emptyDb = []"
    by (simp_all add: emptyDb_def canonicalTable_def mappingTable_def)
  have ins: "insertCanonical ?M (js ''x -y'') (Some (js ''x y'')) [] =
      Inr \<lparr> row_id = 1, canonical_name = js ''x -y'', normalized_name = js ''x y'' \<rparr>"
    by (simp add: insertCanonical_def noFaults_def freshId_def)
  have 1: "resolveCanonical asciiRuntime ?M emptyDb (Some (js ''x 5pc-y'')) ItemEntity None
      = (Inr (Some 1), xyDb)"
    by (simp add: resolveCanonical_def n c n' tbl ins Let_def selectMapping_def selectAll_def)
       (simp add: insertMapping_def noFaults_def setMappingTable_def setCanonicalTable_def
          xyDb_def emptyDb_def)
  have m: "item_mappings xyDb = []"
    by (simp add: xyDb_def emptyDb_def)
  have xt: "canonicalTable ItemEntity xyDb =
      [\<lparr> row_id = 1, canonical_name = js ''x -y'', normalized_name = js ''x y'' \<rparr>]"
    "mappingTable ItemEntity xyDb = []"
    by (simp_all add: xyDb_def emptyDb_def canonicalTable_def mappingTable_def)
  have sel: "selectMapping noFaults (mappingTable ItemEntity xyDb) (js ''x 5pcy'') = None"
    by (simp add: xt selectMapping_def)
  have loop: "bestMatchLoop (js ''x 5pcy'') (selectAll noFaults (canonicalTable ItemEntity xyDb)) (None, 0)
      = (Some \<lparr> row_id = 1, canonical_name = js ''x -y'', normalized_name = js ''x y'' \<rparr>, 1 / 2)"
    by (simp add: xt selectAll_def noFaults_def s)
  have dup: "insertCanonical noFaults (js ''x -y'') (Some (js ''x y'')) (canonicalTable ItemEntity xyDb)
      = Inl (StoreError ''canonical insert'')"
    by (simp add: xt insertCanonical_def noFaults_def)
  have 2: "resolveCanonical asciiRuntime noFaults xyDb (Some (js ''x 5pc-y'')) ItemEntity None
      = (Inl (StoreError ''canonical insert''), xyDb)"
    using t by (simp add: resolveCanonical_def n sel loop c n' dup)
  from 1 m s 2 show ?thesis by simp
qed



section \<open>Properties of normalizeText\<close>

lemma space_not_word: "isSpace c \<Longrightarrow> \<not> isWordChar c"
  by (auto simp: isSpace_def isWordChar_def isDigit_def isLower_def isUpper_def)

lemma space_not_digit: "isSpace c \<Longrightarrow> \<not> isDigit c"
  by (auto simp: isSpace_def isDigit_def)

lemma digit_word: "isDigit c \<Longrightarrow> isWordChar c"
  by (simp add: isWordChar_def)

lemma isSpace_32: "isSpace 32"
  by (simp add: isSpace_def)

lemma plain_small: "isPlain c \<Longrightarrow> c < 55296"
  by (auto simp: isPlain_def isLower_def isDigit_def)

subsection \<open>The characters that survive\<close>

lemma set_stripPcs: "set (stripPcs s) \<subseteq> set s"
proof (induction s rule: stripPcs.induct)
  case 1
  then show ?case by simp
next
  case (2 c cs)
  show ?case
  proof (cases "matchPcs (c # cs)")
    case None
    with 2 show ?thesis by auto
  next
    case (Some n)
    with 2 have "set (stripPcs (drop (n - 1) cs)) \<subseteq> set (drop (n - 1) cs)" by simp
    also have "\<dots> \<subseteq> set cs" by (rule set_drop_subset)
    finally show ?thesis using Some by auto
  qed
qed

lemma set_stripNumbersFrom: "set (stripNumbersFrom pw s) \<subseteq> set s"
proof (induction pw s rule: stripNumbersFrom.induct)
  case (1 pw)
  then show ?case by simp
next
  case (2 pw c cs)
  show ?case
  proof (cases "matchNumber pw (c # cs)")
    case None
    with 2 show ?thesis by auto
  next
    case (Some n)
    with 2 have "set (stripNumbersFrom True (drop (n - 1) cs)) \<subseteq> set (drop (n - 1) cs)" by simp
    also have "\<dots> \<subseteq> set cs" by (rule set_drop_subset)
    finally show ?thesis using Some by auto
  qed
qed

lemma plain_collapseFrom:
  "\<forall>c \<in> set s. isLower c \<or> isDigit c \<or> isSpace c \<Longrightarrow> \<forall>c \<in> set (collapseFrom b s). isPlain c"
  by (induction b s rule: collapseFrom.induct) (auto simp: isPlain_def)

lemma trim_decomp: "\<exists>t. (\<forall>c \<in> set t. isSpace c) \<and> dropWhile isSpace s = trim s @ t"
proof -
  let ?a = "dropWhile isSpace s"
  have "?a = rev (takeWhile isSpace (rev ?a) @ dropWhile isSpace (rev ?a))"
    by (simp only: takeWhile_dropWhile_id rev_rev_ident)
  then have "?a = trim s @ rev (takeWhile isSpace (rev ?a))"
    by (simp only: rev_append trim_def)
  moreover have "\<forall>c \<in> set (rev (takeWhile isSpace (rev ?a))). isSpace c"
    by (auto dest: set_takeWhileD)
  ultimately show ?thesis by blast
qed

lemma set_trim: "set (trim s) \<subseteq> set s"
proof -
  obtain t where "dropWhile isSpace s = trim s @ t" using trim_decomp by blast
  then have "set (trim s) \<subseteq> set (dropWhile isSpace s)" by simp
  also have "\<dots> \<subseteq> set s" by (auto dest: set_dropWhileD)
  finally show ?thesis .
qed

lemma trim_fixed: "trim (trim s) = trim s"
proof (cases "trim s = []")
  case True
  have "trim [] = []" by (simp add: trim_def)
  with True show ?thesis by (simp only:)
next
  case False
  let ?a = "dropWhile isSpace s"
  let ?y = "trim s"
  obtain t where t: "?a = ?y @ t" using trim_decomp by blast
  from False t have "hd ?y = hd ?a" "?a \<noteq> []" by auto
  then have "\<not> isSpace (hd ?y)" using hd_dropWhile[of isSpace s] by simp
  with False have front: "dropWhile isSpace ?y = ?y" by (cases ?y) auto
  have ry: "rev ?y = dropWhile isSpace (rev ?a)" by (simp add: trim_def)
  then have "dropWhile isSpace (rev ?y) = rev ?y" by simp
  with front show ?thesis by (simp add: trim_def[of ?y])
qed

subsection \<open>Emoji and special characters in a plain string\<close>

lemma stripEmoji_small: "\<forall>c \<in> set s. c < 55296 \<Longrightarrow> stripEmoji s = s"
  by (induction s rule: stripEmoji.induct) (auto simp: isHighSurrogate_def isEmoji_def)

lemma stripSpecial_plain: "\<forall>c \<in> set s. isPlain c \<Longrightarrow> stripSpecial s = s"
  by (auto simp: stripSpecial_def isPlain_def isSpace_32 intro!: filter_True)


subsection \<open>Strings in which no number is left\<close>

lemma noNumber_fixed: "noNumber pw s \<Longrightarrow> stripNumbersFrom pw s = s"
  by (induction pw s rule: noNumber.induct) auto

lemma matchNumber_nondigit: "\<not> isDigit c \<Longrightarrow> matchNumber pw (c # cs) = None"
  by (simp add: matchNumber_def)

lemma matchNumber_prevWord: "matchNumber True s = None"
  by (simp add: matchNumber_def)

lemma matchNumber_Some:
  assumes "matchNumber pw s = Some n"
  shows "\<not> pw" and "n = length (takeWhile isDigit s)" and "takeWhile isDigit s \<noteq> []"
    and "boundaryBefore (dropWhile isDigit s)"
  using assms by (auto simp: matchNumber_def split: if_splits)

lemma drop_matched:
  assumes "isDigit c"
  shows "drop (length (takeWhile isDigit (c # cs)) - 1) cs = dropWhile isDigit (c # cs)"
proof -
  have "drop (length (takeWhile isDigit cs)) cs = dropWhile isDigit cs"
    by (rule dropWhile_eq_drop[symmetric])
  with assms show ?thesis by simp
qed

lemma stripNumbers_after_word:
  "\<forall>d \<in> set ds. isDigit d \<Longrightarrow> stripNumbersFrom True (ds @ r) = ds @ stripNumbersFrom True r"
  by (induction ds) (auto simp: matchNumber_prevWord digit_word)

lemma boundaryBefore_Cons: "boundaryBefore (c # cs) \<longleftrightarrow> \<not> isWordChar c"
  by (simp add: boundaryBefore_def)

lemma noNumber_stripNumbersFrom: "noNumber pw (stripNumbersFrom pw s)"
proof (induction "length s" arbitrary: pw s rule: less_induct)
  case less
  show ?case
  proof (cases s)
    case Nil
    then show ?thesis by simp
  next
    case (Cons c cs)
    show ?thesis
    proof (cases "matchNumber pw (c # cs)")
      case (Some n)
      note m = matchNumber_Some[OF Some]
      from m(3) have dc: "isDigit c" by (auto split: if_splits)
      let ?r = "dropWhile isDigit (c # cs)"
      have res: "stripNumbersFrom pw s = stripNumbersFrom True ?r"
        using Some m(2) drop_matched[OF dc] by (simp add: Cons)
      have len: "length ?r < length s"
        using dc by (simp add: Cons length_dropWhile_le le_imp_less_Suc)
      show ?thesis
      proof (cases ?r)
        case Nil
        with res show ?thesis by simp
      next
        case (Cons x r')
        with m(4) have x: "\<not> isWordChar x" by (simp add: boundaryBefore_Cons)
        then have nd: "\<not> isDigit x" using digit_word by blast
        from len Cons have "length r' < length s" by simp
        then have "noNumber False (stripNumbersFrom False r')" by (rule less)
        with x nd res Cons m(1) show ?thesis
          by (simp add: matchNumber_prevWord matchNumber_nondigit)
      qed
    next
      case None
      let ?Y = "stripNumbersFrom (isWordChar c) cs"
      have res: "stripNumbersFrom pw s = c # ?Y" using None by (simp add: Cons)
      have tail: "noNumber (isWordChar c) ?Y" by (rule less) (simp add: Cons)
      have "matchNumber pw (c # ?Y) = None"
      proof (cases "pw \<or> \<not> isDigit c")
        case True
        then show ?thesis by (auto simp: matchNumber_def)
      next
        case False
        then have dc: "isDigit c" and npw: "\<not> pw" by auto
        let ?ds = "takeWhile isDigit cs" and ?r = "dropWhile isDigit cs"
        from None dc npw have nb: "\<not> boundaryBefore ?r"
          by (auto simp: matchNumber_def split: if_splits)
        then obtain l r' where r: "?r = l # r'" and l: "isWordChar l"
          by (cases ?r) (auto simp: boundaryBefore_def)
        from r have ndl: "\<not> isDigit l" using hd_dropWhile[of isDigit cs] by auto
        have cs: "cs = ?ds @ l # r'" using r by (metis takeWhile_dropWhile_id)
        have digs: "\<forall>d \<in> set ?ds. isDigit d" by (auto dest: set_takeWhileD)
        have "?Y = stripNumbersFrom True (?ds @ l # r')"
          using dc cs by (simp add: digit_word)
        also have "\<dots> = ?ds @ stripNumbersFrom True (l # r')"
          using digs by (rule stripNumbers_after_word)
        also have "\<dots> = ?ds @ l # stripNumbersFrom True r'"
          using l by (simp add: matchNumber_prevWord)
        finally have Y: "?Y = ?ds @ l # stripNumbersFrom True r'" .
        have tw: "takeWhile isDigit (c # ?ds @ l # stripNumbersFrom True r') = c # ?ds"
          using dc ndl digs by (simp add: takeWhile_append2 takeWhile_tail)
        have dw: "dropWhile isDigit (c # ?ds @ l # stripNumbersFrom True r')
            = l # stripNumbersFrom True r'"
          using dc ndl digs by (simp add: dropWhile_append2)
        show ?thesis
          unfolding Y by (simp only: matchNumber_def tw dw) (simp add: boundaryBefore_Cons l)
      qed
      with res tail show ?thesis by simp
    qed
  qed
qed

lemma takeWhile_digit_collapse:
  "takeWhile isDigit (collapseFrom False s) = takeWhile isDigit s"
  by (induction s) (auto simp: space_not_digit isSpace_32)

lemma boundary_after_digits_collapse:
  "boundaryBefore (dropWhile isDigit (collapseFrom False s)) = boundaryBefore (dropWhile isDigit s)"
  by (induction s) (auto simp: space_not_digit isSpace_32 space_not_word boundaryBefore_Cons)

lemma matchNumber_collapse: "matchNumber pw (collapseFrom False s) = matchNumber pw s"
  by (simp add: matchNumber_def takeWhile_digit_collapse boundary_after_digits_collapse)

lemma noNumber_collapseFrom:
  "noNumber pw s \<Longrightarrow> (b \<longrightarrow> \<not> pw) \<Longrightarrow> noNumber pw (collapseFrom b s)"
proof (induction s arbitrary: pw b)
  case Nil
  then show ?case by simp
next
  case (Cons c cs)
  show ?case
  proof (cases "isSpace c")
    case True
    then have w: "\<not> isWordChar c" by (rule space_not_word)
    from Cons.prems(1) w have "noNumber False cs" by simp
    then have "noNumber False (collapseFrom True cs)" by (rule Cons.IH) simp
    with True Cons.prems(2) show ?thesis
      by (auto simp: matchNumber_nondigit space_not_digit isSpace_32 space_not_word)
  next
    case False
    from Cons.prems(1) have m: "matchNumber pw (c # cs) = None"
      and t: "noNumber (isWordChar c) cs" by simp_all
    from t have t': "noNumber (isWordChar c) (collapseFrom False cs)" by (rule Cons.IH) simp
    have "matchNumber pw (collapseFrom False (c # cs)) = None"
      using m by (simp only: matchNumber_collapse)
    with False t' show ?thesis by simp
  qed
qed

lemma noNumber_dropSpaces: "noNumber False s \<Longrightarrow> noNumber False (dropWhile isSpace s)"
  by (induction s) (auto simp: space_not_word)

lemma takeWhile_append_none:
  "\<forall>x \<in> set t. \<not> P x \<Longrightarrow> takeWhile P (s @ t) = takeWhile P s"
  by (induction s) (auto simp: takeWhile_eq_Nil_iff)

lemma dropWhile_append_none:
  "\<forall>x \<in> set t. \<not> P x \<Longrightarrow> dropWhile P (s @ t) = dropWhile P s @ t"
  by (induction s) (auto simp: dropWhile_eq_self_iff)

lemma boundaryBefore_append_spaces:
  "\<forall>x \<in> set t. isSpace x \<Longrightarrow> boundaryBefore (r @ t) = boundaryBefore r"
  by (cases r; cases t) (auto simp: boundaryBefore_def space_not_word)

lemma matchNumber_append_spaces:
  assumes "\<forall>x \<in> set t. isSpace x"
  shows "matchNumber pw (s @ t) = matchNumber pw s"
proof -
  from assms have nd: "\<forall>x \<in> set t. \<not> isDigit x" using space_not_digit by blast
  show ?thesis
    by (simp add: matchNumber_def takeWhile_append_none[OF nd] dropWhile_append_none[OF nd]
        boundaryBefore_append_spaces[OF assms])
qed

lemma noNumber_dropTrailing:
  "\<forall>x \<in> set t. isSpace x \<Longrightarrow> noNumber pw (s @ t) \<Longrightarrow> noNumber pw s"
proof (induction s arbitrary: pw)
  case Nil
  then show ?case by simp
next
  case (Cons c cs)
  from Cons.prems(2) have m: "matchNumber pw ((c # cs) @ t) = None"
    and tl: "noNumber (isWordChar c) (cs @ t)" by simp_all
  from m have "matchNumber pw (c # cs) = None"
    by (simp only: matchNumber_append_spaces[OF Cons.prems(1)])
  moreover from Cons.prems(1) tl have "noNumber (isWordChar c) cs" by (rule Cons.IH)
  ultimately show ?case by simp
qed

subsection \<open>Strings in which the white space is collapsed\<close>

lemma collapsed_collapseFrom: "collapsed b (collapseFrom b s)"
  by (induction b s rule: collapseFrom.induct) (auto simp: isSpace_32)

lemma collapsed_fixed: "collapsed b s \<Longrightarrow> collapseFrom b s = s"
  by (induction b s rule: collapsed.induct) (auto split: if_splits)

lemma collapsed_dropSpaces: "collapsed b s \<Longrightarrow> collapsed False (dropWhile isSpace s)"
proof (induction s arbitrary: b)
  case Nil
  then show ?case by simp
next
  case (Cons c cs)
  show ?case
  proof (cases "isSpace c")
    case True
    with Cons.prems have "collapsed True cs" by simp
    then have "collapsed False (dropWhile isSpace cs)" by (rule Cons.IH)
    with True show ?thesis by simp
  next
    case False
    with Cons.prems show ?thesis by simp
  qed
qed

lemma collapsed_prefix: "collapsed b (s @ t) \<Longrightarrow> collapsed b s"
  by (induction b s rule: collapsed.induct) (auto split: if_splits)


subsection \<open>The steps never lengthen a string\<close>

lemma length_stripPcs: "length (stripPcs s) \<le> length s"
proof (induction s rule: stripPcs.induct)
  case 1
  then show ?case by simp
next
  case (2 c cs)
  show ?case
  proof (cases "matchPcs (c # cs)")
    case None
    with 2 show ?thesis by simp
  next
    case (Some n)
    with 2 have "length (stripPcs (drop (n - 1) cs)) \<le> length (drop (n - 1) cs)" by simp
    then show ?thesis using Some by simp
  qed
qed

lemma stripPcs_same_length: "length (stripPcs s) = length s \<Longrightarrow> stripPcs s = s"
proof (induction s)
  case Nil
  then show ?case by simp
next
  case (Cons c cs)
  show ?case
  proof (cases "matchPcs (c # cs)")
    case None
    with Cons show ?thesis by simp
  next
    case (Some n)
    have "length (stripPcs (drop (n - 1) cs)) \<le> length (drop (n - 1) cs)"
      by (rule length_stripPcs)
    then have "length (stripPcs (c # cs)) \<le> length cs" using Some by simp
    with Cons.prems show ?thesis by simp
  qed
qed

lemma length_stripNumbersFrom: "length (stripNumbersFrom pw s) \<le> length s"
proof (induction pw s rule: stripNumbersFrom.induct)
  case (1 pw)
  then show ?case by simp
next
  case (2 pw c cs)
  show ?case
  proof (cases "matchNumber pw (c # cs)")
    case None
    with 2 show ?thesis by simp
  next
    case (Some n)
    with 2 have "length (stripNumbersFrom True (drop (n - 1) cs)) \<le> length (drop (n - 1) cs)"
      by simp
    then show ?thesis using Some by simp
  qed
qed

lemma length_collapseFrom: "length (collapseFrom b s) \<le> length s"
  by (induction b s rule: collapseFrom.induct) auto

lemma length_trim: "length (trim s) \<le> length s"
proof -
  have "length (trim s) \<le> length (dropWhile isSpace s)"
    unfolding trim_def length_rev using length_dropWhile_le[of isSpace "rev (dropWhile isSpace s)"]
    by simp
  also have "\<dots> \<le> length s" by (rule length_dropWhile_le)
  finally show ?thesis .
qed

lemma tail_steps_length:
  "length (trim (collapseSpaces (stripNumbers w))) \<le> length w"
proof -
  have "length (trim (collapseSpaces (stripNumbers w))) \<le> length (collapseSpaces (stripNumbers w))"
    by (rule length_trim)
  also have "\<dots> \<le> length (stripNumbers w)"
    unfolding collapseSpaces_def by (rule length_collapseFrom)
  also have "\<dots> \<le> length w"
    unfolding stripNumbers_def by (rule length_stripNumbersFrom)
  finally show ?thesis .
qed

subsection \<open>The shape of a normalized string\<close>

lemma normalized_shape:
  assumes "\<forall>c \<in> set w. isLower c \<or> isDigit c \<or> isSpace c"
  defines "y \<equiv> trim (collapseSpaces (stripNumbers (stripPcs w)))"
  shows "\<forall>c \<in> set y. isPlain c" and "noNumber False y" and "collapsed False y"
proof -
  let ?w2 = "stripNumbers (stripPcs w)"
  let ?w3 = "collapseSpaces ?w2"
  have "set ?w2 \<subseteq> set w"
    unfolding stripNumbers_def using set_stripNumbersFrom set_stripPcs by blast
  with assms(1) have ok2: "\<forall>c \<in> set ?w2. isLower c \<or> isDigit c \<or> isSpace c" by blast
  then have plain3: "\<forall>c \<in> set ?w3. isPlain c"
    unfolding collapseSpaces_def by (rule plain_collapseFrom)
  have "noNumber False ?w2"
    unfolding stripNumbers_def by (rule noNumber_stripNumbersFrom)
  then have num3: "noNumber False ?w3"
    unfolding collapseSpaces_def by (rule noNumber_collapseFrom) simp
  have col3: "collapsed False ?w3"
    unfolding collapseSpaces_def by (rule collapsed_collapseFrom)
  obtain t where t: "\<forall>c \<in> set t. isSpace c" "dropWhile isSpace ?w3 = y @ t"
    unfolding y_def using trim_decomp by blast
  from plain3 set_trim[of ?w3] show "\<forall>c \<in> set y. isPlain c"
    unfolding y_def by blast
  from num3 have "noNumber False (dropWhile isSpace ?w3)" by (rule noNumber_dropSpaces)
  then have "noNumber False (y @ t)" by (simp only: t(2))
  with t(1) show "noNumber False y" by (rule noNumber_dropTrailing)
  from col3 have "collapsed False (dropWhile isSpace ?w3)" by (rule collapsed_dropSpaces)
  then have "collapsed False (y @ t)" by (simp only: t(2))
  then show "collapsed False y" by (rule collapsed_prefix)
qed

text \<open>
  The string pcpcs normalizes to pc: only the second \<^verbatim>\<open>pcs\<close> stands before a word
  boundary. The string pc normalizes to the empty string.
\<close>

theorem normalizeText_counterexample:
  "normalizeText asciiRuntime (Some (js ''pcpcs'')) = Some (js ''pc'')
   \<and> normalizeText asciiRuntime (Some (js ''pc'')) = Some []
   \<and> js ''pc'' \<noteq> []"
  by (simp add: char_defs normalizeText_def trim_def collapseSpaces_def stripNumbers_def
      matchNumber_def matchPcs_def stripSpecial_def asciiRuntime_def js_def)

text \<open>
  C5, as the code has it. For every non-empty string x, normalize(normalize(x)) equals
  normalize(x) exactly when normalize(x) is not empty and holds no \<^verbatim>\<open>pc\<close> or \<^verbatim>\<open>pcs\<close> before a
  word boundary (the step that removes them leaves it unchanged). The lower case and NFKD
  of the runtime leave a string of the characters a-z, 0-9 and space as it is.
\<close>

theorem normalizeText_idempotent_iff:
  assumes lower: "fixesPlain (toLowerCase U)"
    and nfkd: "fixesPlain (normalizeNFKD U)"
    and x: "normalizeText U (Some x) = Some y"
  shows "normalizeText U (Some y) = Some y \<longleftrightarrow> y \<noteq> [] \<and> stripPcs y = y"
proof -
  let ?w = "stripSpecial (stripEmoji (normalizeNFKD U (toLowerCase U x)))"
  from x have y: "y = trim (collapseSpaces (stripNumbers (stripPcs ?w)))"
    by (simp add: normalizeText_def split: if_splits)
  have ok: "\<forall>c \<in> set ?w. isLower c \<or> isDigit c \<or> isSpace c"
    by (simp add: stripSpecial_def)
  note shape = normalized_shape[OF ok, folded y]
  from shape(1) lower have 1: "toLowerCase U y = y" by (simp add: fixesPlain_def)
  from shape(1) nfkd have 2: "normalizeNFKD U y = y" by (simp add: fixesPlain_def)
  from shape(1) have 3: "stripEmoji y = y"
    by (intro stripEmoji_small) (auto dest: plain_small)
  from shape(1) have 4: "stripSpecial y = y" by (rule stripSpecial_plain)
  from shape(2) have 6: "stripNumbers y = y"
    unfolding stripNumbers_def by (rule noNumber_fixed)
  from shape(3) have 7: "collapseSpaces y = y"
    unfolding collapseSpaces_def by (rule collapsed_fixed)
  have 8: "trim y = y" unfolding y by (rule trim_fixed)
  have again: "normalizeText U (Some y) =
      (if y = [] then None else Some (trim (collapseSpaces (stripNumbers (stripPcs y)))))"
    by (simp add: normalizeText_def 1 2 3 4)
  show ?thesis
  proof
    assume fixed: "normalizeText U (Some y) = Some y"
    with again have ne: "y \<noteq> []"
      and eq: "trim (collapseSpaces (stripNumbers (stripPcs y))) = y"
      by (auto split: if_splits)
    have "length y \<le> length (stripPcs y)"
      using tail_steps_length[of "stripPcs y"] by (simp only: eq)
    with length_stripPcs[of y] have "length (stripPcs y) = length y" by simp
    then have "stripPcs y = y" by (rule stripPcs_same_length)
    with ne show "y \<noteq> [] \<and> stripPcs y = y" by simp
  next
    assume "y \<noteq> [] \<and> stripPcs y = y"
    with again show "normalizeText U (Some y) = Some y" by (simp add: 6 7 8)
  qed
qed

lemma asciiRuntime_fixesPlain:
  "fixesPlain (toLowerCase asciiRuntime)" "fixesPlain (normalizeNFKD asciiRuntime)"
proof -
  have "\<not> isUpper c" if "isPlain c" for c
    using that by (auto simp: isPlain_def isUpper_def isLower_def isDigit_def)
  then show "fixesPlain (toLowerCase asciiRuntime)"
    by (auto simp: fixesPlain_def asciiRuntime_def intro!: map_idI)
  show "fixesPlain (normalizeNFKD asciiRuntime)"
    by (simp add: fixesPlain_def asciiRuntime_def)
qed

text \<open>
  The raw name Taco 12 pcs normalizes to taco, and taco to itself.
\<close>

theorem normalizeText_idempotent_iff_witness:
  "normalizeText asciiRuntime (Some (js ''Taco 12 pcs'')) = Some (js ''taco'')
   \<and> normalizeText asciiRuntime (Some (js ''taco'')) = Some (js ''taco'')
   \<and> js ''taco'' \<noteq> [] \<and> stripPcs (js ''taco'') = js ''taco''"
proof -
  have x: "normalizeText asciiRuntime (Some (js ''Taco 12 pcs'')) = Some (js ''taco'')"
    by (simp add: char_defs normalizeText_def trim_def collapseSpaces_def stripNumbers_def
        matchNumber_def matchPcs_def stripSpecial_def asciiRuntime_def js_def)
  have ne: "js ''taco'' \<noteq> []" by (simp add: js_def)
  have pcs: "stripPcs (js ''taco'') = js ''taco''"
    by (simp add: js_def matchPcs_def char_defs)
  from normalizeText_idempotent_iff [OF asciiRuntime_fixesPlain x] ne pcs
  have "normalizeText asciiRuntime (Some (js ''taco'')) = Some (js ''taco'')" by (rule iffD2[OF _ conjI])
  with x ne pcs show ?thesis by (intro conjI)
qed

end
